theory Spec2Isabelle
  imports Complex_Main
begin

unbundle bit_operations_syntax

section \<open>Library functions the program calls\<close>

subsection \<open>hashlib.sha256(s.encode()).hexdigest()\<close>

text \<open>
  The program hashes every string with SHA-256 and reads the digest as 64 lower-case hex
  characters. The function is written out here after FIPS 180-4 on 32-bit words held in
  \<open>int\<close> (every addition reduced modulo \<open>2 ^ 32\<close>), so that a fingerprint can be computed
  on a concrete input. A \<open>string\<close> is the byte string the program passes to the hash.
\<close>

definition add32 :: "int \<Rightarrow> int \<Rightarrow> int" where
  "add32 a b = (a + b) mod 4294967296"

definition rotr32 :: "nat \<Rightarrow> int \<Rightarrow> int" where
  "rotr32 n x = (x div 2 ^ n) + (x mod 2 ^ n) * 2 ^ (32 - n)"

definition shr32 :: "nat \<Rightarrow> int \<Rightarrow> int" where
  "shr32 n x = x div 2 ^ n"

definition not32 :: "int \<Rightarrow> int" where
  "not32 x = 4294967295 - x"

definition ssig0 :: "int \<Rightarrow> int" where
  "ssig0 x = rotr32 7 x XOR rotr32 18 x XOR shr32 3 x"

definition ssig1 :: "int \<Rightarrow> int" where
  "ssig1 x = rotr32 17 x XOR rotr32 19 x XOR shr32 10 x"

definition bsig0 :: "int \<Rightarrow> int" where
  "bsig0 x = rotr32 2 x XOR rotr32 13 x XOR rotr32 22 x"

definition bsig1 :: "int \<Rightarrow> int" where
  "bsig1 x = rotr32 6 x XOR rotr32 11 x XOR rotr32 25 x"

definition ch :: "int \<Rightarrow> int \<Rightarrow> int \<Rightarrow> int" where
  "ch x y z = (x AND y) XOR (not32 x AND z)"

definition maj :: "int \<Rightarrow> int \<Rightarrow> int \<Rightarrow> int" where
  "maj x y z = (x AND y) XOR (x AND z) XOR (y AND z)"

definition sha_k :: "int list" where
  "sha_k =
    [1116352408, 1899447441, 3049323471, 3921009573, 961987163, 1508970993,
     2453635748, 2870763221, 3624381080, 310598401, 607225278, 1426881987,
     1925078388, 2162078206, 2614888103, 3248222580, 3835390401, 4022224774,
     264347078, 604807628, 770255983, 1249150122, 1555081692, 1996064986,
     2554220882, 2821834349, 2952996808, 3210313671, 3336571891, 3584528711,
     113926993, 338241895, 666307205, 773529912, 1294757372, 1396182291,
     1695183700, 1986661051, 2177026350, 2456956037, 2730485921, 2820302411,
     3259730800, 3345764771, 3516065817, 3600352804, 4094571909, 275423344,
     430227734, 506948616, 659060556, 883997877, 958139571, 1322822218,
     1537002063, 1747873779, 1955562222, 2024104815, 2227730452, 2361852424,
     2428436474, 2756734187, 3204031479, 3329325298]"

definition sha_h0 :: "int list" where
  "sha_h0 = [1779033703, 3144134277, 1013904242, 2773480762,
             1359893119, 2600822924, 528734635, 1541459225]"

text \<open>The message schedule: \<open>win\<close> holds the last 16 words, oldest first.\<close>

fun schedule :: "nat \<Rightarrow> int list \<Rightarrow> int list" where
  "schedule 0 win = []"
| "schedule (Suc n) win =
     (let w = add32 (add32 (ssig1 (win ! 14)) (win ! 9)) (add32 (ssig0 (win ! 1)) (win ! 0))
      in w # schedule n (tl win @ [w]))"

type_synonym sha_state = "int \<times> int \<times> int \<times> int \<times> int \<times> int \<times> int \<times> int"

definition round_step :: "sha_state \<Rightarrow> int \<times> int \<Rightarrow> sha_state" where
  "round_step st kw = (case st of (a, b, c, d, e, f, g, h) \<Rightarrow> (case kw of (k, w) \<Rightarrow>
     (let t1 = add32 (add32 (add32 h (bsig1 e)) (add32 (ch e f g) k)) w;
          t2 = add32 (bsig0 a) (maj a b c)
      in (add32 t1 t2, a, b, c, add32 d t1, e, f, g))))"

definition compress :: "int list \<Rightarrow> int list \<Rightarrow> int list" where
  "compress hs blk =
     (case foldl round_step (hs ! 0, hs ! 1, hs ! 2, hs ! 3, hs ! 4, hs ! 5, hs ! 6, hs ! 7)
             (zip sha_k (blk @ schedule 48 blk)) of
        (a, b, c, d, e, f, g, h) \<Rightarrow> map2 add32 hs [a, b, c, d, e, f, g, h])"

fun be_words :: "int list \<Rightarrow> int list" where
  "be_words (a # b # c # d # r) = (((a * 256 + b) * 256 + c) * 256 + d) # be_words r"
| "be_words _ = []"

fun chunks16 :: "nat \<Rightarrow> int list \<Rightarrow> int list list" where
  "chunks16 0 ws = []"
| "chunks16 (Suc n) ws = take 16 ws # chunks16 n (drop 16 ws)"

definition be_bytes8 :: "int \<Rightarrow> int list" where
  "be_bytes8 n = map (\<lambda>i. (n div 256 ^ i) mod 256) [7, 6, 5, 4, 3, 2, 1, 0]"

definition pad :: "int list \<Rightarrow> int list" where
  "pad bs = (let l = length bs; z = (119 - l mod 64) mod 64
             in bs @ [128] @ replicate z 0 @ be_bytes8 (int l * 8))"

definition hexdigit :: "int \<Rightarrow> char" where
  "hexdigit d = ''0123456789abcdef'' ! nat d"

definition hex32 :: "int \<Rightarrow> string" where
  "hex32 w = map (\<lambda>i. hexdigit ((w div 16 ^ i) mod 16)) [7, 6, 5, 4, 3, 2, 1, 0]"

definition sha256 :: "string \<Rightarrow> string" where
  "sha256 s = (let ws = be_words (pad (map of_char s))
               in concat (map hex32 (foldl compress sha_h0 (chunks16 (length ws div 16) ws))))"

subsection \<open>Strings and numbers as Python prints them\<close>

definition digit_char :: "int \<Rightarrow> char" where
  "digit_char d = ''0123456789'' ! nat d"

function digits :: "int \<Rightarrow> string" where
  \<comment> \<open>the decimal digits of a non-negative number\<close>
  "digits n = (if n < 10 then [digit_char n] else digits (n div 10) @ [digit_char (n mod 10)])"
  by pat_completeness auto
termination
  by (relation "measure nat") auto

declare digits.simps [simp del]

definition str_int :: "int \<Rightarrow> string" where
  \<comment> \<open>\<open>str(i)\<close>, also what an f-string prints for an int\<close>
  "str_int i = (if i < 0 then CHR ''-'' # digits (- i) else digits i)"

definition str_nat :: "nat \<Rightarrow> string" where
  "str_nat n = digits (int n)"

definition startswith :: "string \<Rightarrow> string \<Rightarrow> bool" where
  \<comment> \<open>\<open>s.startswith(p)\<close>\<close>
  "startswith s p = (take (length p) s = p)"

fun join :: "string \<Rightarrow> string list \<Rightarrow> string" where
  \<comment> \<open>\<open>sep.join(xs)\<close>\<close>
  "join sep [] = []"
| "join sep [x] = x"
| "join sep (x # y # r) = x @ sep @ join sep (y # r)"

function replace :: "string \<Rightarrow> string \<Rightarrow> string \<Rightarrow> string" where
  \<comment> \<open>\<open>s.replace(old, new)\<close>: every occurrence of \<open>old\<close>, left to right, without overlap\<close>
  "replace [] new s = new @ concat (map (\<lambda>c. c # new) s)"
| "replace (c # old) new [] = []"
| "replace (c # old) new (x # s) =
     (if take (Suc (length old)) (x # s) = c # old
      then new @ replace (c # old) new (drop (length old) s)
      else x # replace (c # old) new s)"
  by pat_completeness auto
termination
  by (relation "measure (\<lambda>(old, new, s). length s)") auto

definition zfill :: "nat \<Rightarrow> string \<Rightarrow> string" where
  \<comment> \<open>zero padding on the left, as \<open>%02d\<close> prints a non-negative number\<close>
  "zfill n s = replicate (n - length s) (CHR ''0'') @ s"

subsection \<open>float\<close>

text \<open>
  A Python float is an IEEE 754 binary64 number: a finite value (held as the rational it
  denotes, \<open>Fin 0\<close> being \<open>0.0\<close>), the negative zero, an infinity or a NaN. Every
  arithmetic operation returns the exact result rounded to the nearest float, a tie going to
  the even significand.
\<close>

datatype pyfloat = Fin rat | NegZero | PosInf | NegInf | NaN

function bit_length :: "int \<Rightarrow> int" where
  \<comment> \<open>the number of binary digits of a positive number\<close>
  "bit_length n = (if n \<le> 0 then 0 else bit_length (n div 2) + 1)"
  by pat_completeness auto
termination
  by (relation "measure nat") auto

declare bit_length.simps [simp del]

definition pow2 :: "int \<Rightarrow> int" where
  \<comment> \<open>\<open>2 ** e\<close>, and 1 for a negative \<open>e\<close>\<close>
  "pow2 e = 2 ^ nat e"

definition flog2 :: "int \<Rightarrow> int \<Rightarrow> int" where
  \<comment> \<open>the exponent \<open>e\<close> with \<open>2 ** e \<le> n / d < 2 ** (e + 1)\<close>, for positive \<open>n\<close> and \<open>d\<close>\<close>
  "flog2 n d =
     (let e = bit_length n - bit_length d
      in if d * pow2 e \<le> n * pow2 (- e) then e else e - 1)"

definition div_half_even :: "int \<Rightarrow> int \<Rightarrow> int" where
  \<comment> \<open>\<open>n / d\<close> rounded to the nearest integer, a tie going to the even one (\<open>d\<close> positive)\<close>
  "div_half_even n d =
     (let f = n div d; r = n mod d
      in if 2 * r < d then f else if d < 2 * r then f + 1 else if even f then f else f + 1)"

definition round_binary64 :: "int \<Rightarrow> int \<Rightarrow> int \<times> int" where
  \<comment> \<open>significand \<open>k\<close> (at most 53 bits) and exponent \<open>s\<close> of the float nearest to \<open>n / d\<close>\<close>
  "round_binary64 n d =
     (let e = max (flog2 n d) (- 1022);
          s = e - 52;
          k = div_half_even (n * pow2 (- s)) (d * pow2 s)
      in (k, s))"

definition scale2 :: "int \<Rightarrow> int \<Rightarrow> rat" where
  \<comment> \<open>\<open>k * 2 ** s\<close>\<close>
  "scale2 k s = of_int (k * pow2 s) / of_int (pow2 (- s))"

definition fl_ratio :: "bool \<Rightarrow> int \<Rightarrow> int \<Rightarrow> pyfloat" where
  \<comment> \<open>the float nearest to \<open>n / d\<close> (\<open>n\<close> not negative, \<open>d\<close> positive) with the given sign\<close>
  "fl_ratio neg n d =
     (if n = 0 then (if neg then NegZero else Fin 0)
      else (case round_binary64 n d of
              (k, s) \<Rightarrow>
                if k = 0 then (if neg then NegZero else Fin 0)
                else if 971 < s \<or> (s = 971 \<and> pow2 53 \<le> k) then (if neg then NegInf else PosInf)
                else Fin (if neg then - scale2 k s else scale2 k s)))"

definition fl :: "rat \<Rightarrow> pyfloat" where
  \<comment> \<open>rounding of an exact result\<close>
  "fl x = (case quotient_of x of (n, d) \<Rightarrow> fl_ratio (x < 0) \<bar>n\<bar> d)"

definition fneg :: "pyfloat \<Rightarrow> pyfloat" where
  "fneg x =
     (case x of
        Fin a \<Rightarrow> (if a = 0 then NegZero else Fin (- a))
      | NegZero \<Rightarrow> Fin 0
      | PosInf \<Rightarrow> NegInf
      | NegInf \<Rightarrow> PosInf
      | NaN \<Rightarrow> NaN)"

definition fadd :: "pyfloat \<Rightarrow> pyfloat \<Rightarrow> pyfloat" where
  \<comment> \<open>\<open>x + y\<close>\<close>
  "fadd x y =
     (case x of
        NaN \<Rightarrow> NaN
      | PosInf \<Rightarrow> (case y of NaN \<Rightarrow> NaN | NegInf \<Rightarrow> NaN | _ \<Rightarrow> PosInf)
      | NegInf \<Rightarrow> (case y of NaN \<Rightarrow> NaN | PosInf \<Rightarrow> NaN | _ \<Rightarrow> NegInf)
      | NegZero \<Rightarrow> y
      | Fin a \<Rightarrow>
          (case y of
             NaN \<Rightarrow> NaN
           | PosInf \<Rightarrow> PosInf
           | NegInf \<Rightarrow> NegInf
           | NegZero \<Rightarrow> Fin a
           | Fin b \<Rightarrow> (if a + b = 0 then Fin 0 else fl (a + b))))"

definition fsub :: "pyfloat \<Rightarrow> pyfloat \<Rightarrow> pyfloat" where
  \<comment> \<open>\<open>x - y\<close>\<close>
  "fsub x y = fadd x (fneg y)"

subsection \<open>round and the printing of a float\<close>

text \<open>
  \<open>round(x, ndigits)\<close> of a finite float is the float nearest to the decimal with \<open>ndigits\<close>
  places that is nearest to the exact value of \<open>x\<close>, a tie going to the even digit; the
  sign of \<open>x\<close> is kept when the result is zero. An infinity and a NaN are returned as
  they are.
\<close>

definition py_round :: "pyfloat \<Rightarrow> nat \<Rightarrow> pyfloat" where
  "py_round x ndigits =
     (case x of
        Fin v \<Rightarrow>
          (case quotient_of \<bar>v\<bar> of
             (n, d) \<Rightarrow> fl_ratio (v < 0) (div_half_even (n * 10 ^ ndigits) d) (10 ^ ndigits))
      | _ \<Rightarrow> x)"

text \<open>
  An f-string prints a float as \<open>repr\<close> does: the shortest decimal that reads back as the
  same float, with at least one digit after the point, and in exponent form when the
  point would stand more than 16 digits to the right of the first digit or more than 3
  zeros to its left.
\<close>

definition pow10 :: "int \<Rightarrow> int" where
  "pow10 e = 10 ^ nat e"

definition flog10 :: "int \<Rightarrow> int \<Rightarrow> int" where
  \<comment> \<open>the exponent \<open>e\<close> with \<open>10 ** e \<le> n / d < 10 ** (e + 1)\<close>, for positive \<open>n\<close> and \<open>d\<close>\<close>
  "flog10 n d =
     (let e = int (length (digits n)) - int (length (digits d))
      in if d * pow10 e \<le> n * pow10 (- e) then e else e - 1)"

definition round_trips :: "int \<Rightarrow> int \<Rightarrow> int \<Rightarrow> int \<Rightarrow> bool" where
  \<comment> \<open>the decimal \<open>m * 10 ** s\<close> read back as a float is \<open>n / d\<close>\<close>
  "round_trips n d m s =
     (case round_binary64 (m * pow10 s) (pow10 (- s)) of
        (k, t) \<Rightarrow> k * pow2 t * d = n * pow2 (- t))"

definition candidate :: "int \<Rightarrow> int \<Rightarrow> int \<Rightarrow> int option" where
  \<comment> \<open>of the two neighbours of \<open>n / d\<close> among the multiples of \<open>10 ** s\<close>, the one that
      reads back as \<open>n / d\<close> (the nearer one when both do)\<close>
  "candidate n d s =
     (let num = n * pow10 (- s); den = d * pow10 s;
          lo = num div den; hi = lo + 1;
          nearest = div_half_even num den;
          other = (if nearest = lo then hi else lo)
      in if round_trips n d nearest s then Some nearest
         else if round_trips n d other s then Some other
         else None)"

fun shortest :: "int \<Rightarrow> int \<Rightarrow> int \<Rightarrow> int list \<Rightarrow> int \<times> int" where
  \<comment> \<open>the shortest decimal \<open>m * 10 ** s\<close> that reads back as \<open>n / d\<close>, trying 1, 2, ... digits\<close>
  "shortest n d e [] = (div_half_even (n * pow10 (16 - e)) (d * pow10 (e - 16)), e - 16)"
| "shortest n d e (nd # nds) =
     (case candidate n d (e - nd + 1) of
        Some m \<Rightarrow> (m, e - nd + 1)
      | None \<Rightarrow> shortest n d e nds)"

definition strip_zeros :: "string \<Rightarrow> string" where
  "strip_zeros s = rev (dropWhile (\<lambda>c. c = CHR ''0'') (rev s))"

definition repr_positive :: "int \<Rightarrow> int \<Rightarrow> string" where
  \<comment> \<open>\<open>repr\<close> of the positive float \<open>n / d\<close>\<close>
  "repr_positive n d =
     (case shortest n d (flog10 n d) (map int [1..<18]) of
        (m, s) \<Rightarrow>
          (let all_digits = digits m;
               decpt = s + int (length all_digits);
               ds = strip_zeros all_digits
           in if decpt \<le> - 4 \<or> 16 < decpt
              then take 1 ds @ (if 1 < length ds then ''.'' @ drop 1 ds else [])
                   @ ''e'' @ (if decpt - 1 < 0 then ''-'' else ''+'')
                   @ zfill 2 (digits \<bar>decpt - 1\<bar>)
              else if decpt \<le> 0 then ''0.'' @ replicate (nat (- decpt)) (CHR ''0'') @ ds
              else if int (length ds) \<le> decpt
              then ds @ replicate (nat decpt - length ds) (CHR ''0'') @ ''.0''
              else take (nat decpt) ds @ ''.'' @ drop (nat decpt) ds))"

definition float_str :: "pyfloat \<Rightarrow> string" where
  \<comment> \<open>what an f-string prints for a float: \<open>repr\<close>\<close>
  "float_str x =
     (case x of
        NaN \<Rightarrow> ''nan''
      | PosInf \<Rightarrow> ''inf''
      | NegInf \<Rightarrow> ''-inf''
      | NegZero \<Rightarrow> ''-0.0''
      | Fin v \<Rightarrow>
          if v = 0 then ''0.0''
          else (if v < 0 then ''-'' else [])
               @ (case quotient_of \<bar>v\<bar> of (n, d) \<Rightarrow> repr_positive n d))"

section \<open>core/blockchain.py\<close>

datatype error = IndexError | KeyError | TypeError

text \<open>
  \<open>xs[i]\<close> for a non-negative index: Python raises IndexError out of range.
\<close>

definition get :: "'a list \<Rightarrow> nat \<Rightarrow> error + 'a" where
  "get xs i = (if i < length xs then Inr (xs ! i) else Inl IndexError)"

definition get_last :: "'a list \<Rightarrow> error + 'a" where
  \<comment> \<open>\<open>xs[-1]\<close>\<close>
  "get_last xs = (if xs = [] then Inl IndexError else Inr (last xs))"

subsection \<open>The snapshot mapping (astronomical\_data)\<close>

text \<open>
  The snapshot is a dictionary. Every key the program looks up is a field with an
  \<open>option\<close>: \<open>None\<close> is the absent key. A reading is the float that \<open>float(...)\<close>
  makes of the value stored under the key.
\<close>

record Iss =
  latitude :: "pyfloat option"
  longitude :: "pyfloat option"

record Solar =
  flux :: "pyfloat option"

record Sources =
  iss :: "Iss option"
  solar :: "Solar option"

record Snapshot =
  snap_type :: "string option"
  snap_timestamp :: "string option"
  sources :: "Sources option"
  snap_astronomical_hash :: "string option"

subsection \<open>Transaction\<close>

text \<open>
  \<open>amount\<close> is a float, as the constructor declares it. \<open>tx_hash\<close> is the hash the
  constructor stored; no operation of the ledger recomputes it.
\<close>

record Transaction =
  from_address :: string
  to_address :: string
  amount :: pyfloat
  tx_timestamp :: string
  data :: "(string \<times> string) list"
  tx_hash :: string

subsection \<open>Block\<close>

record Block =
  index :: int
  timestamp :: string
  transactions :: "Transaction list"
  previous_hash :: string
  astronomical_data :: Snapshot
  astronomical_hash :: string
  merkle_root :: string
  nonce :: int
  hash :: string

text \<open>
  \<open>for i in range(0, len(tx_hashes), 2)\<close>: the indices, then the loop body for each of
  them, reading \<open>tx_hashes[i]\<close> and \<open>tx_hashes[i + 1]\<close> and appending to \<open>new_hashes\<close>.
\<close>

definition range_step2 :: "nat \<Rightarrow> nat list" where
  "range_step2 n = map (\<lambda>k. 2 * k) [0..<(n + 1) div 2]"

fun hash_pairs :: "string list \<Rightarrow> nat list \<Rightarrow> string list \<Rightarrow> error + string list" where
  "hash_pairs tx_hashes [] new_hashes = Inr new_hashes"
| "hash_pairs tx_hashes (i # is) new_hashes =
     (case get tx_hashes i of
        Inl e \<Rightarrow> Inl e
      | Inr a \<Rightarrow>
          (case get tx_hashes (i + 1) of
             Inl e \<Rightarrow> Inl e
           | Inr b \<Rightarrow> hash_pairs tx_hashes is (new_hashes @ [sha256 (a @ b)])))"

lemma hash_pairs_length:
  "hash_pairs hs is new = Inr r \<Longrightarrow> length r = length new + length is"
  by (induction "is" arbitrary: new) (auto split: sum.splits)

definition dup_last :: "string list \<Rightarrow> string list" where
  \<comment> \<open>\<open>if len(tx_hashes) % 2 == 1: tx_hashes.append(tx_hashes[-1])\<close>, on a non-empty list\<close>
  "dup_last tx_hashes =
     (if length tx_hashes mod 2 = 1 then tx_hashes @ [last tx_hashes] else tx_hashes)"

function merkle_loop :: "string list \<Rightarrow> error + string list" where
  \<comment> \<open>the \<open>while len(tx_hashes) > 1\<close> loop\<close>
  "merkle_loop tx_hashes =
     (if length tx_hashes > 1
      then (case hash_pairs (dup_last tx_hashes) (range_step2 (length (dup_last tx_hashes))) [] of
              Inl e \<Rightarrow> Inl e
            | Inr new_hashes \<Rightarrow> merkle_loop new_hashes)
      else Inr tx_hashes)"
  by pat_completeness auto
termination
proof (relation "measure length")
  show "wf (measure length)" by simp
next
  fix tx_hashes :: "string list" and new_hashes
  assume gt: "1 < length tx_hashes"
    and hp: "hash_pairs (dup_last tx_hashes) (range_step2 (length (dup_last tx_hashes))) []
              = Inr new_hashes"
  have "length new_hashes = (length (dup_last tx_hashes) + 1) div 2"
    using hash_pairs_length [OF hp] by (simp add: range_step2_def)
  moreover have "length (dup_last tx_hashes) \<le> length tx_hashes + 1"
    by (simp add: dup_last_def)
  ultimately have "length new_hashes < length tx_hashes"
    using gt by (auto simp: dup_last_def split: if_splits) arith+
  then show "(new_hashes, tx_hashes) \<in> measure length" by simp
qed

declare merkle_loop.simps [simp del]

definition calculate_merkle_root :: "Transaction list \<Rightarrow> error + string" where
  "calculate_merkle_root txs =
     (if txs = [] then Inr (sha256 '''')
      else (case merkle_loop (map tx_hash txs) of
              Inl e \<Rightarrow> Inl e
            | Inr tx_hashes \<Rightarrow> get tx_hashes 0))"

definition calculate_hash :: "Block \<Rightarrow> string" where
  "calculate_hash b =
     sha256 (str_int (index b) @ timestamp b @ previous_hash b @ merkle_root b
             @ astronomical_hash b @ str_int (nonce b))"

text \<open>
  The constructor. \<open>now\<close> is \<open>datetime.utcnow().isoformat()\<close> at the call;
  \<open>astronomical_data.get("astronomical_hash", "")\<close> is the block's fingerprint.
\<close>

definition Block_init :: "int \<Rightarrow> Transaction list \<Rightarrow> string \<Rightarrow> Snapshot \<Rightarrow> string \<Rightarrow> error + Block" where
  "Block_init idx txs prev snap now =
     (case calculate_merkle_root txs of
        Inl e \<Rightarrow> Inl e
      | Inr mroot \<Rightarrow>
          (let b = \<lparr> index = idx, timestamp = now, transactions = txs, previous_hash = prev,
                     astronomical_data = snap,
                     astronomical_hash = (case snap_astronomical_hash snap of None \<Rightarrow> '''' | Some h \<Rightarrow> h),
                     merkle_root = mroot, nonce = 0, hash = '''' \<rparr>
           in Inr (b\<lparr> hash := calculate_hash b \<rparr>)))"

subsection \<open>AstroBlockchain\<close>

record AstroBlockchain =
  chain_blocks :: "Block list"
  pending_transactions :: "Transaction list"

definition genesis_astronomical_data :: Snapshot where
  "genesis_astronomical_data =
     \<lparr> snap_type = Some ''genesis'', snap_timestamp = None, sources = None,
       snap_astronomical_hash =
         Some ''0000000000000000000000000000000000000000000000000000000000000000'' \<rparr>"

definition create_genesis_block :: "AstroBlockchain \<Rightarrow> string \<Rightarrow> error + AstroBlockchain" where
  "create_genesis_block s now =
     (case Block_init 0 [] ''0'' genesis_astronomical_data now of
        Inl e \<Rightarrow> Inl e
      | Inr genesis_block \<Rightarrow> Inr (s\<lparr> chain_blocks := chain_blocks s @ [genesis_block] \<rparr>))"

definition AstroBlockchain_init :: "string \<Rightarrow> error + AstroBlockchain" where
  "AstroBlockchain_init now =
     create_genesis_block \<lparr> chain_blocks = [], pending_transactions = [] \<rparr> now"

definition get_latest_block :: "AstroBlockchain \<Rightarrow> error + Block" where
  "get_latest_block s = get_last (chain_blocks s)"

definition add_transaction :: "AstroBlockchain \<Rightarrow> Transaction \<Rightarrow> AstroBlockchain" where
  "add_transaction s tx = s\<lparr> pending_transactions := pending_transactions s @ [tx] \<rparr>"

definition create_block :: "AstroBlockchain \<Rightarrow> Snapshot \<Rightarrow> string \<Rightarrow> error + (Block \<times> AstroBlockchain)" where
  "create_block s snap now =
     (let idx = int (length (chain_blocks s)) in
      case get_latest_block s of
        Inl e \<Rightarrow> Inl e
      | Inr latest \<Rightarrow>
          (let previous_hash = hash latest;
               txs = pending_transactions s;
               s1 = s\<lparr> pending_transactions := [] \<rparr>
           in case Block_init idx txs previous_hash snap now of
                Inl e \<Rightarrow> Inl e
              | Inr new_block \<Rightarrow>
                  Inr (new_block, s1\<lparr> chain_blocks := chain_blocks s1 @ [new_block] \<rparr>)))"

text \<open>
  \<open>for i in range(1, len(self.chain))\<close> with its two early returns. Every index of the
  range is inside the list, and so is \<open>i - 1\<close>.
\<close>

fun check_blocks :: "Block list \<Rightarrow> nat list \<Rightarrow> bool" where
  "check_blocks c [] = True"
| "check_blocks c (i # is) =
     (let current_block = c ! i; previous_block = c ! (i - 1) in
      if hash current_block \<noteq> calculate_hash current_block then False
      else if previous_hash current_block \<noteq> hash previous_block then False
      else check_blocks c is)"

definition is_chain_valid :: "AstroBlockchain \<Rightarrow> bool" where
  "is_chain_valid s = check_blocks (chain_blocks s) [1..<length (chain_blocks s)]"

text \<open>
  \<open>balance\<close> starts as the int \<open>0\<close> and becomes a float at the first \<open>-=\<close> or \<open>+=\<close>; the int
  \<open>0\<close> and the float \<open>0.0\<close> behave alike in both, and are one value here.
\<close>

definition balance_step :: "string \<Rightarrow> pyfloat \<Rightarrow> Transaction \<Rightarrow> pyfloat" where
  "balance_step address balance tx =
     (let b1 = (if from_address tx = address then fsub balance (amount tx) else balance)
      in if to_address tx = address then fadd b1 (amount tx) else b1)"

definition get_balance :: "AstroBlockchain \<Rightarrow> string \<Rightarrow> pyfloat" where
  "get_balance s address =
     foldl (\<lambda>balance block. foldl (balance_step address) balance (transactions block))
       (Fin 0) (chain_blocks s)"

text \<open>A client of the ledger: the two calls that build a chain.\<close>

datatype call = AddTransaction Transaction | CreateBlock Snapshot string

fun run :: "AstroBlockchain \<Rightarrow> call list \<Rightarrow> error + AstroBlockchain" where
  "run s [] = Inr s"
| "run s (AddTransaction tx # cs) = run (add_transaction s tx) cs"
| "run s (CreateBlock snap now # cs) =
     (case create_block s snap now of Inl e \<Rightarrow> Inl e | Inr (b, s') \<Rightarrow> run s' cs)"

text \<open>
  \<open>Block.to_dict()\<close>, the serialized form \<open>validate_astronomical_block\<close> receives. The
  key \<open>astronomical_data\<close> may be absent from a dictionary built elsewhere.
\<close>

record BlockData =
  bd_index :: int
  bd_timestamp :: string
  bd_previous_hash :: string
  bd_transactions :: "Transaction list"
  bd_astronomical_data :: "Snapshot option"
  bd_astronomical_hash :: string
  bd_merkle_root :: string
  bd_nonce :: int
  bd_hash :: string

definition to_dict :: "Block \<Rightarrow> BlockData" where
  "to_dict b =
     \<lparr> bd_index = index b, bd_timestamp = timestamp b, bd_previous_hash = previous_hash b,
       bd_transactions = transactions b, bd_astronomical_data = Some (astronomical_data b),
       bd_astronomical_hash = astronomical_hash b, bd_merkle_root = merkle_root b,
       bd_nonce = nonce b, bd_hash = hash b \<rparr>"

section \<open>consensus/proof\_of\_astronomy.py\<close>

subsection \<open>datetime\<close>

text \<open>
  A \<open>datetime\<close> value: \<open>utcoffset = None\<close> is a naive one, \<open>Some d\<close> an aware one whose offset
  from UTC is \<open>d\<close> microseconds.
\<close>

record datetime =
  year :: nat
  month :: nat
  day :: nat
  hour :: nat
  minute :: nat
  second :: nat
  microsecond :: nat
  utcoffset :: "int option"

definition format_offset :: "int \<Rightarrow> string" where
  "format_offset off =
     (let a = \<bar>off\<bar>;
          hh = a div 3600000000;
          mm = (a mod 3600000000) div 60000000;
          ss = (a mod 60000000) div 1000000;
          us = a mod 1000000
      in (if off < 0 then ''-'' else ''+'') @ zfill 2 (str_int hh) @ '':'' @ zfill 2 (str_int mm)
         @ (if ss \<noteq> 0 \<or> us \<noteq> 0
            then '':'' @ zfill 2 (str_int ss) @ (if us \<noteq> 0 then ''.'' @ zfill 6 (str_int us) else [])
            else []))"

definition isoformat :: "datetime \<Rightarrow> string" where
  "isoformat dt =
     zfill 4 (str_nat (year dt)) @ ''-'' @ zfill 2 (str_nat (month dt)) @ ''-''
     @ zfill 2 (str_nat (day dt)) @ ''T'' @ zfill 2 (str_nat (hour dt)) @ '':''
     @ zfill 2 (str_nat (minute dt)) @ '':'' @ zfill 2 (str_nat (second dt))
     @ (if microsecond dt \<noteq> 0 then ''.'' @ zfill 6 (str_nat (microsecond dt)) else [])
     @ (case utcoffset dt of None \<Rightarrow> [] | Some off \<Rightarrow> format_offset off)"

definition is_leap :: "nat \<Rightarrow> bool" where
  "is_leap y = (y mod 4 = 0 \<and> (y mod 100 \<noteq> 0 \<or> y mod 400 = 0))"

definition days_in_month :: "nat \<Rightarrow> nat \<Rightarrow> nat" where
  "days_in_month y m =
     (if m = 2 then (if is_leap y then 29 else 28)
      else if m = 4 \<or> m = 6 \<or> m = 9 \<or> m = 11 then 30 else 31)"

definition days_before_year :: "nat \<Rightarrow> int" where
  "days_before_year y = (let p = int y - 1 in p * 365 + p div 4 - p div 100 + p div 400)"

definition days_before_month :: "nat \<Rightarrow> nat \<Rightarrow> int" where
  "days_before_month y m = int (sum_list (map (days_in_month y) [1..<m]))"

definition to_microseconds :: "datetime \<Rightarrow> int" where
  \<comment> \<open>microseconds since the start of year 1, on the datetime's own clock\<close>
  "to_microseconds dt =
     ((((days_before_year (year dt) + days_before_month (year dt) (month dt) + int (day dt)) * 24
        + int (hour dt)) * 60 + int (minute dt)) * 60 + int (second dt)) * 1000000
     + int (microsecond dt)"

definition sub_datetime :: "datetime \<Rightarrow> datetime \<Rightarrow> error + int" where
  \<comment> \<open>\<open>a - b\<close>, a timedelta in microseconds; a naive and an aware datetime raise TypeError\<close>
  "sub_datetime a b =
     (case (utcoffset a, utcoffset b) of
        (None, None) \<Rightarrow> Inr (to_microseconds a - to_microseconds b)
      | (Some oa, Some ob) \<Rightarrow> Inr ((to_microseconds a - oa) - (to_microseconds b - ob))
      | _ \<Rightarrow> Inl TypeError)"

subsection \<open>ProofOfAstronomy\<close>

text \<open>
  \<open>block_interval\<close> is the timedelta in microseconds. \<open>time_str\<close> is \<open>str(time.time())\<close> at
  construction. \<open>datetime.fromisoformat\<close> is an argument of every function that calls it
  (\<open>None\<close> where Python raises ValueError): which strings it accepts depends on the Python
  version, and nothing below depends on that.
\<close>

record ProofOfAstronomy =
  block_interval :: int
  last_block_time :: "datetime option"
  difficulty_target :: string
  node_id :: string

definition ProofOfAstronomy_init :: "int \<Rightarrow> string \<Rightarrow> ProofOfAstronomy" where
  "ProofOfAstronomy_init block_interval_minutes time_str =
     \<lparr> block_interval = block_interval_minutes * 60000000, last_block_time = None,
       difficulty_target = ''0000'', node_id = take 16 (sha256 time_str) \<rparr>"

definition is_time_for_new_block ::
  "(string \<Rightarrow> datetime option) \<Rightarrow> ProofOfAstronomy \<Rightarrow> datetime \<Rightarrow> string option \<Rightarrow> bool" where
  "is_time_for_new_block fromisoformat self current_time last_block_timestamp =
     (case last_block_timestamp of
        None \<Rightarrow> True
      | Some ts \<Rightarrow>
          if ts = [] then True
          else (case fromisoformat (replace ''+00:00'' [] (replace ''Z'' ''+00:00'' ts)) of
                  None \<Rightarrow> True
                | Some last_time \<Rightarrow>
                    (case sub_datetime current_time last_time of
                       Inl e \<Rightarrow> True
                     | Inr d \<Rightarrow> block_interval self \<le> d)))"

definition iss_component :: "Iss \<Rightarrow> error + string" where
  "iss_component i =
     (case latitude i of
        None \<Rightarrow> Inl KeyError
      | Some la \<Rightarrow>
          (case longitude i of
             None \<Rightarrow> Inl KeyError
           | Some lo \<Rightarrow>
               (let lat_rounded = py_round la 2; lon_rounded = py_round lo 2
                in Inr (''iss_'' @ float_str lat_rounded @ ''_'' @ float_str lon_rounded))))"

definition solar_component :: "Solar \<Rightarrow> error + string" where
  "solar_component so =
     (case flux so of
        None \<Rightarrow> Inl KeyError
      | Some f \<Rightarrow> (let flux_rounded = py_round f 4 in Inr (''solar_'' @ float_str flux_rounded)))"

definition time_component :: "(string \<Rightarrow> datetime option) \<Rightarrow> string \<Rightarrow> string" where
  "time_component fromisoformat ts =
     (case fromisoformat (replace ''Z'' [] ts) of
        None \<Rightarrow> ''time_'' @ ts
      | Some dt \<Rightarrow>
          (let minutes_rounded = (minute dt div 10) * 10;
               time_rounded = dt\<lparr> minute := minutes_rounded, second := 0, microsecond := 0 \<rparr>
           in ''time_'' @ isoformat time_rounded))"

definition consensus_components ::
  "(string \<Rightarrow> datetime option) \<Rightarrow> Snapshot \<Rightarrow> error + string list" where
  "consensus_components fromisoformat snap =
     (let srcs = (case sources snap of
                    None \<Rightarrow> \<lparr> iss = None, solar = None \<rparr> | Some s \<Rightarrow> s)
      in case (case iss srcs of
                 None \<Rightarrow> Inr []
               | Some i \<Rightarrow> (case iss_component i of Inl e \<Rightarrow> Inl e | Inr c \<Rightarrow> Inr [c])) of
           Inl e \<Rightarrow> Inl e
         | Inr c1 \<Rightarrow>
             (case (case solar srcs of
                      None \<Rightarrow> Inr c1
                    | Some so \<Rightarrow>
                        (case solar_component so of Inl e \<Rightarrow> Inl e | Inr c \<Rightarrow> Inr (c1 @ [c]))) of
                Inl e \<Rightarrow> Inl e
              | Inr c2 \<Rightarrow>
                  (let ts = (case snap_timestamp snap of None \<Rightarrow> [] | Some t \<Rightarrow> t)
                   in Inr (if ts \<noteq> [] then c2 @ [time_component fromisoformat ts] else c2))))"

definition calculate_astronomical_consensus ::
  "(string \<Rightarrow> datetime option) \<Rightarrow> Snapshot \<Rightarrow> error + string" where
  "calculate_astronomical_consensus fromisoformat snap =
     (case consensus_components fromisoformat snap of
        Inl e \<Rightarrow> Inl e
      | Inr cs \<Rightarrow> (let consensus_string = join ''_'' cs in Inr (sha256 consensus_string)))"

definition can_create_block :: "ProofOfAstronomy \<Rightarrow> string \<Rightarrow> string \<Rightarrow> bool" where
  "can_create_block self consensus_hash nid =
     (let node_hash = sha256 (consensus_hash @ ''_'' @ nid)
      in startswith node_hash (difficulty_target self))"

text \<open>\<open>for nonce in range(max_attempts)\<close>, returning at the first admitted nonce.\<close>

fun nonce_loop :: "ProofOfAstronomy \<Rightarrow> string \<Rightarrow> nat list \<Rightarrow> int option" where
  "nonce_loop self consensus_hash [] = None"
| "nonce_loop self consensus_hash (n # ns) =
     (let candidate_hash =
            sha256 (consensus_hash @ ''_'' @ node_id self @ ''_'' @ str_int (int n))
      in if startswith candidate_hash (difficulty_target self) then Some (int n)
         else nonce_loop self consensus_hash ns)"

definition find_valid_nonce :: "ProofOfAstronomy \<Rightarrow> string \<Rightarrow> int \<Rightarrow> int option" where
  "find_valid_nonce self consensus_hash max_attempts =
     nonce_loop self consensus_hash [0..<nat max_attempts]"

text \<open>
  The whole body stands in \<open>try ... except Exception: return False\<close>: an error of the
  recomputation is the result \<open>False\<close>.
\<close>

definition validate_astronomical_block ::
  "(string \<Rightarrow> datetime option) \<Rightarrow> BlockData \<Rightarrow> bool" where
  "validate_astronomical_block fromisoformat block_data =
     (case bd_astronomical_data block_data of
        None \<Rightarrow> False
      | Some snap \<Rightarrow>
          (case calculate_astronomical_consensus fromisoformat snap of
             Inl e \<Rightarrow> False
           | Inr recalculated_consensus \<Rightarrow>
               (let claimed_hash = (case snap_astronomical_hash snap of
                                      None \<Rightarrow> [] | Some h \<Rightarrow> h)
                in if recalculated_consensus \<noteq> claimed_hash then False else True)))"

section \<open>The specification's words\<close>

text \<open>
  The Merkle root as the specification describes it: an empty list gives the hash of the
  empty string; otherwise, as long as more than one hash is left, the last one is
  duplicated when the count is odd and every adjacent pair is concatenated and hashed.
\<close>

fun pairwise :: "string list \<Rightarrow> string list" where
  "pairwise (a # b # r) = sha256 (a @ b) # pairwise r"
| "pairwise _ = []"

lemma length_pairwise: "length (pairwise xs) = length xs div 2"
  by (induction xs rule: pairwise.induct) auto

function fold_pairs :: "string list \<Rightarrow> string list" where
  "fold_pairs hs =
     (if length hs \<le> 1 then hs
      else fold_pairs (pairwise (if odd (length hs) then hs @ [last hs] else hs)))"
  by pat_completeness auto
termination
proof (relation "measure length")
  show "wf (measure length)" by simp
next
  fix hs :: "string list"
  assume "\<not> length hs \<le> 1"
  then have "odd (length hs) \<longrightarrow> Suc (length hs div 2) < length hs"
    and "even (length hs) \<longrightarrow> length hs div 2 < length hs"
    by presburger+
  then show "(pairwise (if odd (length hs) then hs @ [last hs] else hs), hs) \<in> measure length"
    by (simp add: length_pairwise)
qed

declare fold_pairs.simps [simp del]

definition spec_merkle_root :: "string list \<Rightarrow> string" where
  "spec_merkle_root hs =
     (if hs = [] then sha256 [] else (case fold_pairs hs of [] \<Rightarrow> [] | h # _ \<Rightarrow> h))"

text \<open>The number a float denotes (0 for both zeros), and its sign bit.\<close>

definition is_finite :: "pyfloat \<Rightarrow> bool" where
  "is_finite x = (case x of Fin v \<Rightarrow> True | NegZero \<Rightarrow> True | _ \<Rightarrow> False)"

definition val :: "pyfloat \<Rightarrow> rat" where
  "val x = (case x of Fin v \<Rightarrow> v | _ \<Rightarrow> 0)"

definition is_negative :: "pyfloat \<Rightarrow> bool" where
  "is_negative x = (case x of Fin v \<Rightarrow> v < 0 | NegZero \<Rightarrow> True | NegInf \<Rightarrow> True | _ \<Rightarrow> False)"

text \<open>What one transaction adds to the balance of an address, in exact arithmetic.\<close>

definition contribution :: "string \<Rightarrow> Transaction \<Rightarrow> rat" where
  "contribution a tx =
     (if to_address tx = a then val (amount tx) else 0)
     - (if from_address tx = a then val (amount tx) else 0)"

text \<open>
  Transactions whose amounts are whole numbers with absolute values that sum to at most
  \<open>2 ** 53\<close>: every sum and difference of such amounts is a float.
\<close>

definition is_whole :: "pyfloat \<Rightarrow> bool" where
  "is_whole x = (case x of Fin v \<Rightarrow> v = of_int \<lfloor>v\<rfloor> | _ \<Rightarrow> False)"

definition whole_amounts :: "Transaction list \<Rightarrow> bool" where
  "whole_amounts txs =
     (list_all (\<lambda>tx. is_whole (amount tx)) txs
      \<and> sum_list (map (\<lambda>tx. \<bar>val (amount tx)\<bar>) txs) \<le> 2 ^ 53)"

text \<open>
  Two readings of the same rounding cell: both are finite, have the same sign and lie
  strictly within half a unit of the last of the \<open>n\<close> decimal places (0.005 for 2 places,
  0.00005 for 4) of the same multiple \<open>k\<close> of that unit. Two keys are close when both are
  absent, or hold equal readings, or hold readings of the same cell.
\<close>

definition near_grid :: "nat \<Rightarrow> int \<Rightarrow> pyfloat \<Rightarrow> bool" where
  "near_grid n k x = (is_finite x \<and> \<bar>val x - of_int k / 10 ^ n\<bar> < 5 / 10 ^ (n + 1))"

definition same_cell :: "nat \<Rightarrow> int \<Rightarrow> pyfloat \<Rightarrow> pyfloat \<Rightarrow> bool" where
  "same_cell n k x y = (is_negative x = is_negative y \<and> near_grid n k x \<and> near_grid n k y)"

definition reading_close :: "nat \<Rightarrow> int \<Rightarrow> pyfloat option \<Rightarrow> pyfloat option \<Rightarrow> bool" where
  "reading_close n k r r' =
     (r = r' \<or> (case (r, r') of (Some x, Some y) \<Rightarrow> same_cell n k x y | _ \<Rightarrow> False))"

text \<open>The admission test of the nonce search, for one nonce.\<close>

definition admits :: "ProofOfAstronomy \<Rightarrow> string \<Rightarrow> int \<Rightarrow> bool" where
  "admits self consensus_hash n =
     startswith (sha256 (consensus_hash @ ''_'' @ node_id self @ ''_'' @ str_int n))
       (difficulty_target self)"

section \<open>Clients and inputs\<close>

text \<open>A ledger as a client gets it: the constructor, then a sequence of calls.\<close>

definition build :: "string \<Rightarrow> call list \<Rightarrow> error + AstroBlockchain" where
  "build now cs = (case AstroBlockchain_init now of Inl e \<Rightarrow> Inl e | Inr s \<Rightarrow> run s cs)"

text \<open>
  Mutations of a stored block from outside the class: \<open>chain[i].transactions = txs\<close> and
  \<open>chain[i].transactions[j].amount = v\<close>, for indices inside the lists.
\<close>

definition tamper_transactions :: "AstroBlockchain \<Rightarrow> nat \<Rightarrow> Transaction list \<Rightarrow> AstroBlockchain" where
  "tamper_transactions s i txs =
     s\<lparr> chain_blocks := (chain_blocks s)[i := (chain_blocks s ! i)\<lparr> transactions := txs \<rparr>] \<rparr>"

definition tamper_amount :: "AstroBlockchain \<Rightarrow> nat \<Rightarrow> nat \<Rightarrow> pyfloat \<Rightarrow> AstroBlockchain" where
  "tamper_amount s i j v =
     tamper_transactions s i
       ((transactions (chain_blocks s ! i))
          [j := (transactions (chain_blocks s ! i) ! j)\<lparr> amount := v \<rparr>])"

text \<open>
  The step of the demo that stores the fingerprint in the snapshot:
  \<open>astronomical_snapshot["astronomical_hash"] = consensus_hash\<close>.
\<close>

definition stamp :: "(string \<Rightarrow> datetime option) \<Rightarrow> Snapshot \<Rightarrow> error + Snapshot" where
  "stamp fromisoformat snap =
     (case calculate_astronomical_consensus fromisoformat snap of
        Inl e \<Rightarrow> Inl e
      | Inr consensus_hash \<Rightarrow> Inr (snap\<lparr> snap_astronomical_hash := Some consensus_hash \<rparr>))"

text \<open>A snapshot with both sources and a timestamp, as the data fetcher returns it.\<close>

definition full_snapshot :: "pyfloat \<Rightarrow> pyfloat \<Rightarrow> pyfloat \<Rightarrow> string \<Rightarrow> Snapshot" where
  "full_snapshot la lo f ts =
     \<lparr> snap_type = None, snap_timestamp = Some ts,
       sources = Some \<lparr> iss = Some \<lparr> latitude = Some la, longitude = Some lo \<rparr>,
                        solar = Some \<lparr> flux = Some f \<rparr> \<rparr>,
       snap_astronomical_hash = None \<rparr>"

definition iss_snapshot :: "pyfloat \<Rightarrow> pyfloat \<Rightarrow> Snapshot" where
  "iss_snapshot la lo =
     \<lparr> snap_type = None, snap_timestamp = None,
       sources = Some \<lparr> iss = Some \<lparr> latitude = Some la, longitude = Some lo \<rparr>, solar = None \<rparr>,
       snap_astronomical_hash = None \<rparr>"

definition solar_snapshot :: "pyfloat \<Rightarrow> Snapshot" where
  "solar_snapshot f =
     \<lparr> snap_type = None, snap_timestamp = None,
       sources = Some \<lparr> iss = None, solar = Some \<lparr> flux = Some f \<rparr> \<rparr>,
       snap_astronomical_hash = None \<rparr>"

definition time_snapshot :: "string \<Rightarrow> Snapshot" where
  "time_snapshot ts =
     \<lparr> snap_type = None, snap_timestamp = Some ts, sources = None,
       snap_astronomical_hash = None \<rparr>"

text \<open>
  A parser for the strings \<open>datetime.isoformat()\<close> prints for a naive datetime,
  \<open>YYYY-MM-DDTHH:MM:SS\<close> with an optional \<open>.ffffff\<close>. Python's \<open>fromisoformat\<close> accepts
  these and, depending on its version, more; it is used below only on inputs on which
  every version agrees with it.
\<close>

definition parse_nat :: "string \<Rightarrow> nat option" where
  "parse_nat s =
     (if s \<noteq> [] \<and> list_all (\<lambda>c. c \<in> set ''0123456789'') s
      then Some (foldl (\<lambda>a c. 10 * a + (of_char c - 48)) 0 s) else None)"

definition fromisoformat_basic :: "string \<Rightarrow> datetime option" where
  "fromisoformat_basic s =
     (if (length s = 19 \<or> (length s = 26 \<and> s ! 19 = CHR ''.''))
         \<and> s ! 4 = CHR ''-'' \<and> s ! 7 = CHR ''-'' \<and> s ! 10 = CHR ''T''
         \<and> s ! 13 = CHR '':'' \<and> s ! 16 = CHR '':''
      then (case (parse_nat (take 4 s), parse_nat (take 2 (drop 5 s)),
                  parse_nat (take 2 (drop 8 s)), parse_nat (take 2 (drop 11 s)),
                  parse_nat (take 2 (drop 14 s)), parse_nat (take 2 (drop 17 s)),
                  (if length s = 19 then Some 0 else parse_nat (drop 20 s))) of
              (Some y, Some mo, Some d, Some h, Some mi, Some se, Some us) \<Rightarrow>
                (if 1 \<le> y \<and> 1 \<le> mo \<and> mo \<le> 12 \<and> 1 \<le> d \<and> d \<le> days_in_month y mo
                    \<and> h < 24 \<and> mi < 60 \<and> se < 60
                 then Some \<lparr> year = y, month = mo, day = d, hour = h, minute = mi,
                             second = se, microsecond = us, utcoffset = None \<rparr>
                 else None)
            | _ \<Rightarrow> None)
      else None)"

text \<open>The transfers of the specification's scenario, and a ledger that holds them.\<close>

definition tx_alice_bob :: Transaction where
  "tx_alice_bob =
     \<lparr> from_address = ''alice'', to_address = ''bob'', amount = Fin 100,
       tx_timestamp = ''2024-01-01T10:00:01'', data = [],
       tx_hash = sha256 ''alicebob100.02024-01-01T10:00:01{}'' \<rparr>"

definition tx_bob_charlie :: Transaction where
  "tx_bob_charlie =
     \<lparr> from_address = ''bob'', to_address = ''charlie'', amount = Fin 50,
       tx_timestamp = ''2024-01-01T10:00:02'', data = [],
       tx_hash = sha256 ''bobcharlie50.02024-01-01T10:00:02{}'' \<rparr>"

definition tx_charlie_alice :: Transaction where
  "tx_charlie_alice =
     \<lparr> from_address = ''charlie'', to_address = ''alice'', amount = Fin 25,
       tx_timestamp = ''2024-01-01T10:00:03'', data = [],
       tx_hash = sha256 ''charliealice25.02024-01-01T10:00:03{}'' \<rparr>"

text \<open>
  A snapshot with the readings \<open>36.39\<close>, \<open>173.77\<close> and \<open>0.1826\<close> (\<open>fl\<close> of a decimal is the
  float the literal denotes), and one with readings and a timestamp nearby.
\<close>

definition demo_snapshot :: Snapshot where
  "demo_snapshot =
     full_snapshot (fl (3639 / 100)) (fl (17377 / 100)) (fl (1826 / 10000))
       ''2024-01-01T10:07:30''"

definition nearby_snapshot :: Snapshot where
  "nearby_snapshot =
     full_snapshot (fl (36394 / 1000)) (fl (173766 / 1000)) (fl (18264 / 100000))
       ''2024-01-01T10:02:59''"

definition scenario_calls :: "call list" where
  "scenario_calls =
     [AddTransaction tx_alice_bob, AddTransaction tx_bob_charlie,
      AddTransaction tx_charlie_alice, CreateBlock demo_snapshot ''2024-01-01T10:08:00'']"

definition demo_genesis :: Block where
  "demo_genesis =
     \<lparr> index = 0, timestamp = ''2024-01-01T10:00:00'', transactions = [], previous_hash = ''0'',
       astronomical_data = genesis_astronomical_data,
       astronomical_hash = ''0000000000000000000000000000000000000000000000000000000000000000'',
       merkle_root = sha256 [], nonce = 0,
       hash = sha256 (''0'' @ ''2024-01-01T10:00:00'' @ ''0'' @ sha256 []
                @ ''0000000000000000000000000000000000000000000000000000000000000000'' @ ''0'') \<rparr>"

definition demo_ledger :: AstroBlockchain where
  "demo_ledger = \<lparr> chain_blocks = [demo_genesis], pending_transactions = [] \<rparr>"

text \<open>
  Two datetimes of the same 10-minute bucket: they differ at most in the last digit of
  the minute, the second and the microsecond.
\<close>

definition same_bucket :: "datetime \<Rightarrow> datetime \<Rightarrow> bool" where
  "same_bucket a b =
     (year a = year b \<and> month a = month b \<and> day a = day b \<and> hour a = hour b
      \<and> minute a div 10 = minute b div 10 \<and> utcoffset a = utcoffset b)"

text \<open>
  Two snapshots that differ by less than the rounding precision: every reading of the
  one is close to the reading of the other under the same key (\<open>k1\<close>, \<open>k2\<close> and \<open>k3\<close>
  number the cells of latitude, longitude and flux), and the timestamps are equal or
  parse to datetimes of the same bucket.
\<close>

definition iss_close :: "int \<Rightarrow> int \<Rightarrow> Iss option \<Rightarrow> Iss option \<Rightarrow> bool" where
  "iss_close k1 k2 i i' =
     (case (i, i') of
        (None, None) \<Rightarrow> True
      | (Some a, Some b) \<Rightarrow>
          reading_close 2 k1 (latitude a) (latitude b)
          \<and> reading_close 2 k2 (longitude a) (longitude b)
      | _ \<Rightarrow> False)"

definition solar_close :: "int \<Rightarrow> Solar option \<Rightarrow> Solar option \<Rightarrow> bool" where
  "solar_close k3 so so' =
     (case (so, so') of
        (None, None) \<Rightarrow> True
      | (Some a, Some b) \<Rightarrow> reading_close 4 k3 (flux a) (flux b)
      | _ \<Rightarrow> False)"

definition sources_close :: "int \<Rightarrow> int \<Rightarrow> int \<Rightarrow> Sources option \<Rightarrow> Sources option \<Rightarrow> bool" where
  "sources_close k1 k2 k3 s s' =
     (case (s, s') of
        (None, None) \<Rightarrow> True
      | (Some a, Some b) \<Rightarrow> iss_close k1 k2 (iss a) (iss b) \<and> solar_close k3 (solar a) (solar b)
      | _ \<Rightarrow> False)"

definition time_close ::
  "(string \<Rightarrow> datetime option) \<Rightarrow> string option \<Rightarrow> string option \<Rightarrow> bool" where
  "time_close fromisoformat t t' =
     (t = t'
      \<or> (case (t, t') of
            (Some a, Some b) \<Rightarrow>
              a \<noteq> [] \<and> b \<noteq> []
              \<and> (case (fromisoformat (replace ''Z'' [] a), fromisoformat (replace ''Z'' [] b)) of
                    (Some d, Some d') \<Rightarrow> same_bucket d d'
                  | _ \<Rightarrow> False)
          | _ \<Rightarrow> False))"

definition snapshot_close ::
  "(string \<Rightarrow> datetime option) \<Rightarrow> int \<Rightarrow> int \<Rightarrow> int \<Rightarrow> Snapshot \<Rightarrow> Snapshot \<Rightarrow> bool" where
  "snapshot_close fromisoformat k1 k2 k3 snap snap' =
     (sources_close k1 k2 k3 (sources snap) (sources snap')
      \<and> time_close fromisoformat (snap_timestamp snap) (snap_timestamp snap'))"

text \<open>
  A ledger whose block holds a transfer of \<open>1e16\<close> from a to b and a transfer of \<open>1.0\<close>
  from c to b.
\<close>

definition tx_a_b :: Transaction where
  "tx_a_b =
     \<lparr> from_address = ''a'', to_address = ''b'', amount = Fin 10000000000000000,
       tx_timestamp = ''2024-01-01T10:00:01'', data = [],
       tx_hash = sha256 ''ab1e+162024-01-01T10:00:01{}'' \<rparr>"

definition tx_c_b :: Transaction where
  "tx_c_b =
     \<lparr> from_address = ''c'', to_address = ''b'', amount = Fin 1,
       tx_timestamp = ''2024-01-01T10:00:02'', data = [],
       tx_hash = sha256 ''cb1.02024-01-01T10:00:02{}'' \<rparr>"

definition rounding_calls :: "call list" where
  "rounding_calls =
     [AddTransaction tx_a_b, AddTransaction tx_c_b,
      CreateBlock demo_snapshot ''2024-01-01T10:08:00'']"

text \<open>
  A gate constructed at \<open>time.time() = 1704103200.0\<close>, the fingerprint of \<open>demo_snapshot\<close>,
  and a current time.
\<close>

definition demo_gate :: ProofOfAstronomy where
  "demo_gate = ProofOfAstronomy_init 10 ''1704103200.0''"

definition demo_fingerprint :: string where
  "demo_fingerprint = ''4aeb0b914ad5b4d490d1d945155f57f00cdac01647bf99ae535b5ea151b5489e''"

definition demo_now :: datetime where
  "demo_now = \<lparr> year = 2024, month = 1, day = 1, hour = 10, minute = 30, second = 0,
                 microsecond = 0, utcoffset = None \<rparr>"


section \<open>Properties of floats\<close>

text \<open>
  Sums and differences of whole numbers up to \<open>2 ** 53\<close> are exact, and \<open>round\<close> is constant
  on a rounding cell.
\<close>

lemma bit_length_bounds:
  "0 < n \<Longrightarrow> 1 \<le> bit_length n \<and> 2 ^ nat (bit_length n - 1) \<le> n \<and> n < 2 ^ nat (bit_length n)"
proof (induction n rule: bit_length.induct)
  case (1 n)
  have bl: "bit_length n = bit_length (n div 2) + 1"
    using 1(2) by (simp add: bit_length.simps [of n])
  show ?case
  proof (cases "n div 2 \<le> 0")
    case True
    with 1(2) have "n = 1" by presburger
    then show ?thesis by (simp add: bit_length.simps [of 1] bit_length.simps [of 0])
  next
    case False
    then have m: "0 < n div 2" by simp
    from 1(1) [OF _ m] 1(2) have ih: "1 \<le> bit_length (n div 2)"
      "2 ^ nat (bit_length (n div 2) - 1) \<le> n div 2"
      "n div 2 < 2 ^ nat (bit_length (n div 2))"
      by simp_all
    have e1: "nat (bit_length n - 1) = Suc (nat (bit_length (n div 2) - 1))"
      using ih(1) bl by simp
    have e2: "nat (bit_length n) = Suc (nat (bit_length (n div 2)))"
      using ih(1) bl by simp
    have "2 * (n div 2) \<le> n" "n < 2 * (n div 2 + 1)" by presburger+
    with ih show ?thesis
      unfolding e1 e2 using bl by simp
  qed
qed

lemma div_half_even_1: "div_half_even n 1 = n"
  by (simp add: div_half_even_def)

lemma flog2_whole: "0 < a \<Longrightarrow> flog2 a 1 = bit_length a - 1"
  using bit_length_bounds [of a]
  by (simp add: flog2_def pow2_def bit_length.simps [of 1] bit_length.simps [of 0])

lemma fl_ratio_whole:
  assumes "0 < a" "a \<le> 2 ^ 53"
  shows "fl_ratio neg a 1 = Fin (if neg then - of_int a else of_int a)"
proof -
  note b = bit_length_bounds [OF assms(1)]
  have "(2::int) ^ nat (bit_length a - 1) \<le> 2 ^ 53"
    using b assms(2) by linarith
  then have "nat (bit_length a - 1) \<le> 53"
    using power_le_imp_le_exp [of "2::int" "nat (bit_length a - 1)" 53] by simp
  then have le: "bit_length a \<le> 54" by simp
  define s where "s = bit_length a - 53"
  have rb: "round_binary64 a 1 = (div_half_even (a * pow2 (- s)) (pow2 s), s)"
    using b by (simp add: round_binary64_def flog2_whole [OF assms(1)] s_def Let_def max_def)
  show ?thesis
  proof (cases "s \<le> 0")
    case True
    then have "round_binary64 a 1 = (a * pow2 (- s), s)"
      by (simp add: rb pow2_def div_half_even_1)
    moreover have "scale2 (a * pow2 (- s)) s = of_int a"
      using True by (simp add: scale2_def pow2_def)
    moreover have "a * pow2 (- s) \<noteq> 0"
      using assms(1) by (simp add: pow2_def)
    ultimately show ?thesis
      using assms(1) True by (simp add: fl_ratio_def)
  next
    case False
    then have s1: "s = 1" using le by (simp add: s_def)
    then have "bit_length a = 54" by (simp add: s_def)
    then have "(2::int) ^ 53 \<le> a" using b by simp
    then have a: "a = 2 ^ 53" using assms(2) by simp
    have "round_binary64 a 1 = (2 ^ 52, 1)"
      unfolding rb s1 by (simp add: pow2_def a div_half_even_def)
    moreover have "scale2 (2 ^ 52) 1 = of_int a"
      by (simp add: scale2_def pow2_def a)
    ultimately show ?thesis
      using assms(1) by (simp add: fl_ratio_def pow2_def)
  qed
qed

lemma fl_whole:
  assumes "k \<noteq> 0" "\<bar>k\<bar> \<le> 2 ^ 53"
  shows "fl (of_int k) = Fin (of_int k)"
  using fl_ratio_whole [of "\<bar>k\<bar>" "k < 0"] assms by (simp add: fl_def)

lemma fadd_whole:
  assumes "\<bar>i + j\<bar> \<le> 2 ^ 53"
  shows "fadd (Fin (of_int i)) (Fin (of_int j)) = Fin (of_int (i + j))"
proof (cases "i + j = 0")
  case True
  then have "(of_int i :: rat) + of_int j = 0"
    by (metis of_int_0 of_int_add)
  then show ?thesis using True by (simp add: fadd_def)
next
  case False
  then have "(of_int i :: rat) + of_int j \<noteq> 0"
    by (metis of_int_0_eq_iff of_int_add)
  then show ?thesis
    using fl_whole [OF False assms] by (simp add: fadd_def)
qed

lemma fsub_whole:
  assumes "\<bar>i - j\<bar> \<le> 2 ^ 53"
  shows "fsub (Fin (of_int i)) (Fin (of_int j)) = Fin (of_int (i - j))"
proof (cases "j = 0")
  case True
  then show ?thesis by (simp add: fsub_def fneg_def fadd_def)
next
  case False
  then show ?thesis
    using fadd_whole [of i "- j"] assms by (simp add: fsub_def fneg_def)
qed

lemma div_half_even_near:
  assumes "0 < d" "\<bar>2 * (n - k * d)\<bar> < d"
  shows "div_half_even n d = k"
proof -
  define f where "f = n div d"
  define r where "r = n mod d"
  define t where "t = f - k"
  have n: "n = d * f + r" by (simp add: f_def r_def)
  have r: "0 \<le> r" "r < d" using assms(1) by (simp_all add: r_def)
  have e: "n - k * d = t * d + r" by (simp add: n t_def algebra_simps)
  have b: "2 * (t * d + r) < d" "- d < 2 * (t * d + r)"
    using assms(2) unfolding e by (simp_all add: abs_less_iff)
  have t: "t = 0 \<or> t = - 1"
  proof (rule ccontr)
    assume "\<not> (t = 0 \<or> t = - 1)"
    then consider "1 \<le> t" | "t \<le> - 2" by linarith
    then show False
    proof cases
      case 1
      then have "1 * d \<le> t * d" using assms(1) by (intro mult_right_mono) simp_all
      with b r show False by simp
    next
      case 2
      then have "t * d \<le> (- 2) * d" using assms(1) by (intro mult_right_mono) simp_all
      with b r show False by simp
    qed
  qed
  then show ?thesis
  proof
    assume "t = 0"
    then have "f = k" "2 * r < d" using b r by (simp_all add: t_def)
    then show ?thesis by (simp add: div_half_even_def f_def [symmetric] r_def [symmetric])
  next
    assume "t = - 1"
    then have "f + 1 = k" "d < 2 * r" using b r by (simp_all add: t_def)
    then show ?thesis by (auto simp add: div_half_even_def f_def [symmetric] r_def [symmetric] Let_def)
  qed
qed

lemma py_round_near:
  assumes "near_grid n k x"
  shows "py_round x n = fl_ratio (is_negative x) \<bar>k\<bar> (10 ^ n)"
proof (cases x)
  case (Fin v)
  obtain a d where q: "quotient_of \<bar>v\<bar> = (a, d)" by (cases "quotient_of \<bar>v\<bar>")
  then have d: "0 < d" and v: "\<bar>v\<bar> = of_int a / of_int d"
    using quotient_of_denom_pos quotient_of_div by blast+
  have "\<bar>v - of_int k / 10 ^ n\<bar> < 5 / 10 ^ (n + 1)"
    using assms by (simp add: near_grid_def val_def Fin)
  moreover have "\<bar>\<bar>v\<bar> - \<bar>of_int k / 10 ^ n\<bar>\<bar> \<le> \<bar>v - of_int k / 10 ^ n\<bar>"
    by (rule abs_triangle_ineq3)
  moreover have "\<bar>of_int k / 10 ^ n :: rat\<bar> = of_int \<bar>k\<bar> / 10 ^ n"
    by simp
  ultimately have "\<bar>of_int a / of_int d - of_int \<bar>k\<bar> / 10 ^ n :: rat\<bar> < 5 / 10 ^ (n + 1)"
    unfolding v by linarith
  moreover define z where "z = a * 10 ^ n - \<bar>k\<bar> * d"
  moreover have "of_int a / of_int d - of_int \<bar>k\<bar> / 10 ^ n
      = (of_int z :: rat) / (of_int d * 10 ^ n)"
    using d by (simp add: z_def field_simps)
  ultimately have "\<bar>of_int z :: rat\<bar> / (of_int d * 10 ^ n) < 1 / (2 * 10 ^ n)"
    using d by (simp add: abs_divide abs_mult)
  then have "\<bar>of_int z :: rat\<bar> * 2 < of_int d"
    using d by (simp add: field_simps)
  then have "(of_int (\<bar>z\<bar> * 2) :: rat) < of_int d"
    by simp
  then have "\<bar>z\<bar> * 2 < d"
    by (simp only: of_int_less_iff)
  then have "\<bar>2 * z\<bar> < d"
    by (simp add: abs_mult)
  then have "\<bar>2 * (a * 10 ^ n - \<bar>k\<bar> * d)\<bar> < d"
    unfolding z_def .
  from div_half_even_near [OF d this] show ?thesis
    by (simp add: py_round_def Fin q is_negative_def)
next
  case NegZero
  have "\<bar>of_int k / 10 ^ n :: rat\<bar> < 5 / 10 ^ (n + 1)"
    using assms by (simp add: near_grid_def val_def NegZero)
  then have "\<bar>of_int k :: rat\<bar> * 2 < 1"
    by (simp add: field_simps abs_divide)
  then have "(of_int (\<bar>k\<bar> * 2) :: rat) < of_int 1"
    by simp
  then have "\<bar>k\<bar> * 2 < 1" by (simp only: of_int_less_iff)
  then have "k = 0" by simp
  then show ?thesis by (simp add: py_round_def NegZero is_negative_def fl_ratio_def)
qed (use assms in \<open>simp_all add: near_grid_def is_finite_def\<close>)

lemma py_round_same_cell: "same_cell n k x y \<Longrightarrow> py_round x n = py_round y n"
  using py_round_near [of n k x] py_round_near [of n k y] by (simp add: same_cell_def)

section \<open>Properties of core/blockchain.py\<close>

subsection \<open>The Merkle root\<close>

lemma get_in: "i < length xs \<Longrightarrow> get xs i = Inr (xs ! i)"
  by (simp add: get_def)

lemma hash_pairs_pairwise:
  "i + 2 * m \<le> length hs \<Longrightarrow>
   hash_pairs hs (map (\<lambda>k. i + 2 * k) [0..<m]) new
     = Inr (new @ pairwise (take (2 * m) (drop i hs)))"
proof (induction m arbitrary: i new)
  case 0
  then show ?case by simp
next
  case (Suc m)
  have idx: "map (\<lambda>k. i + 2 * k) [0..<Suc m] = i # map (\<lambda>k. (i + 2) + 2 * k) [0..<m]"
    by (simp add: upt_rec [of 0 "Suc m"] map_Suc_upt [symmetric] del: upt_Suc)
  have d: "drop i hs = hs ! i # hs ! (i + 1) # drop (i + 2) hs"
    using Suc.prems by (simp add: Cons_nth_drop_Suc)
  have ih: "hash_pairs hs (map (\<lambda>k. (i + 2) + 2 * k) [0..<m]) (new @ [sha256 (hs ! i @ hs ! (i + 1))])
      = Inr ((new @ [sha256 (hs ! i @ hs ! (i + 1))]) @ pairwise (take (2 * m) (drop (i + 2) hs)))"
    using Suc.prems by (intro Suc.IH) simp
  show ?case
    unfolding idx using Suc.prems ih by (simp add: get_in d)
qed

lemma hash_pairs_even:
  "even (length hs) \<Longrightarrow> hash_pairs hs (range_step2 (length hs)) [] = Inr (pairwise hs)"
  using hash_pairs_pairwise [of 0 "length hs div 2" hs "[]"]
  by (auto simp: range_step2_def elim!: evenE)

lemma even_dup_last: "even (length (dup_last hs))"
  by (auto simp: dup_last_def)

lemma dup_last_eq: "dup_last hs = (if odd (length hs) then hs @ [last hs] else hs)"
  by (auto simp: dup_last_def odd_iff_mod_2_eq_one)

lemma merkle_loop_fold_pairs: "merkle_loop hs = Inr (fold_pairs hs)"
proof (induction hs rule: fold_pairs.induct)
  case (1 hs)
  show ?case
  proof (cases "length hs \<le> 1")
    case True
    then show ?thesis by (simp add: merkle_loop.simps [of hs] fold_pairs.simps [of hs])
  next
    case False
    have "merkle_loop hs = merkle_loop (pairwise (dup_last hs))"
      using False by (simp add: merkle_loop.simps [of hs] hash_pairs_even [OF even_dup_last])
    also have "\<dots> = Inr (fold_pairs (pairwise (dup_last hs)))"
      using 1 [OF False] by (simp add: dup_last_eq)
    also have "fold_pairs (pairwise (dup_last hs)) = fold_pairs hs"
      using False by (simp add: fold_pairs.simps [of hs] dup_last_eq)
    finally show ?thesis .
  qed
qed

lemma length_fold_pairs: "hs \<noteq> [] \<Longrightarrow> length (fold_pairs hs) = 1"
proof (induction hs rule: fold_pairs.induct)
  case (1 hs)
  show ?case
  proof (cases "length hs \<le> 1")
    case True
    with 1 show ?thesis
      by (simp add: fold_pairs.simps [of hs] le_Suc_eq)
  next
    case False
    let ?n = "pairwise (if odd (length hs) then hs @ [last hs] else hs)"
    have "length ?n \<noteq> 0"
      using False by (auto simp: length_pairwise) 
    then have "length (fold_pairs ?n) = 1"
      using 1 (1) [OF False] by auto
    then show ?thesis
      using False by (simp add: fold_pairs.simps [of hs])
  qed
qed

lemma calculate_merkle_root_spec:
  "calculate_merkle_root txs = Inr (spec_merkle_root (map tx_hash txs))"
proof (cases "txs = []")
  case True
  then show ?thesis by (simp add: calculate_merkle_root_def spec_merkle_root_def)
next
  case False
  then have "length (fold_pairs (map tx_hash txs)) = 1"
    by (simp add: length_fold_pairs)
  then obtain h where "fold_pairs (map tx_hash txs) = [h]"
    by (cases "fold_pairs (map tx_hash txs)") auto
  with False show ?thesis
    by (simp add: calculate_merkle_root_def spec_merkle_root_def merkle_loop_fold_pairs get_def)
qed

subsection \<open>Block and ledger\<close>

lemma calculate_hash_update_hash [simp]: "calculate_hash (b\<lparr> hash := h \<rparr>) = calculate_hash b"
  by (simp add: calculate_hash_def)

lemma calculate_hash_update_transactions [simp]:
  "calculate_hash (b\<lparr> transactions := txs \<rparr>) = calculate_hash b"
  by (simp add: calculate_hash_def)

lemma calculate_hash_update_astronomical_data [simp]:
  "calculate_hash (b\<lparr> astronomical_data := d \<rparr>) = calculate_hash b"
  by (simp add: calculate_hash_def)

lemma Block_init_ok:
  "\<exists>b. Block_init idx txs prev snap now = Inr b \<and> index b = idx \<and> timestamp b = now
     \<and> transactions b = txs \<and> previous_hash b = prev \<and> astronomical_data b = snap
     \<and> astronomical_hash b = (case snap_astronomical_hash snap of None \<Rightarrow> [] | Some h \<Rightarrow> h)
     \<and> merkle_root b = spec_merkle_root (map tx_hash txs) \<and> nonce b = 0
     \<and> hash b = calculate_hash b"
  by (simp add: Block_init_def calculate_merkle_root_spec Let_def calculate_hash_def)

lemma create_block_ok:
  assumes "chain_blocks s \<noteq> []"
  shows "\<exists>b. create_block s snap now
             = Inr (b, \<lparr> chain_blocks = chain_blocks s @ [b], pending_transactions = [] \<rparr>)
           \<and> index b = int (length (chain_blocks s))
           \<and> previous_hash b = hash (last (chain_blocks s))
           \<and> transactions b = pending_transactions s
           \<and> astronomical_data b = snap
           \<and> hash b = calculate_hash b"
proof -
  obtain b where b: "Block_init (int (length (chain_blocks s))) (pending_transactions s)
        (hash (last (chain_blocks s))) snap now = Inr b"
    "index b = int (length (chain_blocks s))" "previous_hash b = hash (last (chain_blocks s))"
    "transactions b = pending_transactions s" "astronomical_data b = snap"
    "hash b = calculate_hash b"
    using Block_init_ok by blast
  have "create_block s snap now
          = Inr (b, \<lparr> chain_blocks = chain_blocks s @ [b], pending_transactions = [] \<rparr>)"
    using assms b(1) by (simp add: create_block_def get_latest_block_def get_last_def Let_def)
  with b show ?thesis by blast
qed

lemma check_blocks_iff:
  "check_blocks c is \<longleftrightarrow>
     (\<forall>i \<in> set is. hash (c ! i) = calculate_hash (c ! i)
                    \<and> previous_hash (c ! i) = hash (c ! (i - 1)))"
  by (induction "is") (auto simp: Let_def)

lemma is_chain_valid_iff:
  "is_chain_valid s \<longleftrightarrow>
     (\<forall>i. 1 \<le> i \<and> i < length (chain_blocks s) \<longrightarrow>
          hash (chain_blocks s ! i) = calculate_hash (chain_blocks s ! i)
          \<and> previous_hash (chain_blocks s ! i) = hash (chain_blocks s ! (i - 1)))"
  by (auto simp: is_chain_valid_def check_blocks_iff)

lemma is_chain_valid_append:
  assumes "chain_blocks s \<noteq> []" and "is_chain_valid s"
    and "hash b = calculate_hash b" and "previous_hash b = hash (last (chain_blocks s))"
  shows "is_chain_valid \<lparr> chain_blocks = chain_blocks s @ [b], pending_transactions = p \<rparr>"
proof -
  have "hash ((chain_blocks s @ [b]) ! i) = calculate_hash ((chain_blocks s @ [b]) ! i)
        \<and> previous_hash ((chain_blocks s @ [b]) ! i) = hash ((chain_blocks s @ [b]) ! (i - 1))"
    if i: "1 \<le> i" "i < length (chain_blocks s @ [b])" for i
  proof (cases "i < length (chain_blocks s)")
    case True
    then have "i - 1 < length (chain_blocks s)" by simp
    with True i assms(2) show ?thesis
      by (simp add: is_chain_valid_iff nth_append)
  next
    case False
    with i have "i = length (chain_blocks s)" by simp
    with assms(1,3,4) show ?thesis
      by (simp add: nth_append last_conv_nth)
  qed
  then show ?thesis
    by (simp add: is_chain_valid_iff)
qed

lemma AstroBlockchain_init_ok:
  "\<exists>s. AstroBlockchain_init now = Inr s \<and> length (chain_blocks s) = 1
       \<and> pending_transactions s = [] \<and> is_chain_valid s"
proof -
  obtain g where g: "Block_init 0 [] ''0'' genesis_astronomical_data now = Inr g"
    using Block_init_ok by blast
  then show ?thesis
    by (simp add: AstroBlockchain_init_def create_genesis_block_def is_chain_valid_def)
qed

lemma add_transaction_valid [simp]:
  "is_chain_valid (add_transaction s tx) = is_chain_valid s"
  by (simp add: add_transaction_def is_chain_valid_def)

lemma run_valid:
  "chain_blocks s \<noteq> [] \<Longrightarrow> is_chain_valid s \<Longrightarrow>
   \<exists>s'. run s cs = Inr s' \<and> chain_blocks s' \<noteq> [] \<and> is_chain_valid s'"
proof (induction cs arbitrary: s)
  case Nil
  then show ?case by simp
next
  case (Cons c cs)
  show ?case
  proof (cases c)
    case (AddTransaction tx)
    have "chain_blocks (add_transaction s tx) \<noteq> []"
      using Cons.prems(1) by (simp add: add_transaction_def)
    with Cons AddTransaction show ?thesis by simp
  next
    case (CreateBlock snap now)
    obtain b where b: "create_block s snap now
        = Inr (b, \<lparr> chain_blocks = chain_blocks s @ [b], pending_transactions = [] \<rparr>)"
      "previous_hash b = hash (last (chain_blocks s))" "hash b = calculate_hash b"
      using create_block_ok [OF Cons.prems(1)] by blast
    let ?s = "\<lparr> chain_blocks = chain_blocks s @ [b], pending_transactions = [] \<rparr>"
    have "is_chain_valid ?s"
      using is_chain_valid_append [OF Cons.prems b(3) b(2)] .
    moreover have "chain_blocks ?s \<noteq> []" by simp
    ultimately obtain s' where "run ?s cs = Inr s'" "chain_blocks s' \<noteq> []" "is_chain_valid s'"
      using Cons.IH by blast
    with CreateBlock b(1) show ?thesis by simp
  qed
qed

lemma Block_init_eq:
  "Block_init idx txs prev snap now =
     Inr \<lparr> index = idx, timestamp = now, transactions = txs, previous_hash = prev,
           astronomical_data = snap,
           astronomical_hash = (case snap_astronomical_hash snap of None \<Rightarrow> [] | Some h \<Rightarrow> h),
           merkle_root = spec_merkle_root (map tx_hash txs), nonce = 0,
           hash = sha256 (str_int idx @ now @ prev @ spec_merkle_root (map tx_hash txs)
                    @ (case snap_astronomical_hash snap of None \<Rightarrow> [] | Some h \<Rightarrow> h)
                    @ str_int 0) \<rparr>"
  by (simp add: Block_init_def calculate_merkle_root_spec Let_def calculate_hash_def)

lemma tamper_nth:
  assumes "\<And>b. f (b\<lparr> transactions := txs \<rparr>) = f b"
  shows "f ((c[i := (c ! i)\<lparr> transactions := txs \<rparr>]) ! k) = f (c ! k)"
proof (cases "i < length c")
  case True
  then show ?thesis using assms by (simp add: nth_list_update)
next
  case False
  then have "c[i := (c ! i)\<lparr> transactions := txs \<rparr>] = c"
    by (simp add: list_update_beyond)
  then show ?thesis by simp
qed

lemma tamper_transactions_valid:
  "is_chain_valid (tamper_transactions s i txs) = is_chain_valid s"
proof -
  let ?c = "chain_blocks s" and ?c' = "chain_blocks (tamper_transactions s i txs)"
  have c': "?c' = ?c[i := (?c ! i)\<lparr> transactions := txs \<rparr>]"
    by (simp add: tamper_transactions_def)
  have "hash (?c' ! k) = hash (?c ! k)" "previous_hash (?c' ! k) = previous_hash (?c ! k)"
    "calculate_hash (?c' ! k) = calculate_hash (?c ! k)" for k
    unfolding c' by (rule tamper_nth, simp)+
  moreover have "length ?c' = length ?c" by (simp add: c')
  ultimately show ?thesis
    by (simp add: is_chain_valid_iff)
qed

lemma build_valid: "\<exists>s. build now cs = Inr s \<and> chain_blocks s \<noteq> [] \<and> is_chain_valid s"
proof -
  obtain s0 where s0: "AstroBlockchain_init now = Inr s0" "length (chain_blocks s0) = 1"
    "is_chain_valid s0"
    using AstroBlockchain_init_ok by blast
  then have "chain_blocks s0 \<noteq> []" by auto
  from run_valid [OF this s0(3)] s0(1) show ?thesis
    by (simp add: build_def)
qed

lemma scenario_ledger:
  "\<exists>g b. build ''2024-01-01T10:00:00'' scenario_calls
           = Inr \<lparr> chain_blocks = [g, b], pending_transactions = [] \<rparr>
        \<and> transactions g = []
        \<and> transactions b = [tx_alice_bob, tx_bob_charlie, tx_charlie_alice]"
  by (simp add: build_def scenario_calls_def AstroBlockchain_init_def create_genesis_block_def
      Block_init_eq create_block_def get_latest_block_def get_last_def add_transaction_def Let_def)


lemma str_int_0: "str_int 0 = ''0''"
  by code_simp

lemma demo_ledger_init: "AstroBlockchain_init ''2024-01-01T10:00:00'' = Inr demo_ledger"
  by (simp add: AstroBlockchain_init_def create_genesis_block_def Block_init_eq demo_ledger_def
      demo_genesis_def genesis_astronomical_data_def spec_merkle_root_def str_int_0)

subsection \<open>Balances\<close>

lemma foldl_blocks:
  "foldl (\<lambda>balance block. foldl f balance (transactions block)) b c
     = foldl f b (concat (map transactions c))"
  by (induction c arbitrary: b) simp_all

lemma get_balance_foldl:
  "get_balance s a
     = foldl (balance_step a) (Fin 0) (concat (map transactions (chain_blocks s)))"
  by (simp add: get_balance_def foldl_blocks)

lemma is_whole_cases: "is_whole x \<Longrightarrow> \<exists>k. x = Fin (of_int k)"
  by (cases x) (auto simp: is_whole_def)

lemma balance_step_whole:
  assumes "\<bar>b\<bar> + \<bar>k\<bar> \<le> 2 ^ 53" "amount tx = Fin (of_int k)"
  shows "\<exists>b'. balance_step a (Fin (of_int b)) tx = Fin (of_int b')
           \<and> of_int b' = of_int b + contribution a tx \<and> \<bar>b'\<bar> \<le> \<bar>b\<bar> + \<bar>k\<bar>"
proof -
  have 1: "\<bar>b - k\<bar> \<le> 2 ^ 53" "\<bar>b + k\<bar> \<le> 2 ^ 53" "\<bar>b - k + k\<bar> \<le> 2 ^ 53"
    using assms(1) by linarith+
  consider "from_address tx = a" "to_address tx = a"
    | "from_address tx = a" "to_address tx \<noteq> a"
    | "from_address tx \<noteq> a" "to_address tx = a"
    | "from_address tx \<noteq> a" "to_address tx \<noteq> a"
    by blast
  then show ?thesis
  proof cases
    case 1
    then have "balance_step a (Fin (of_int b)) tx = Fin (of_int b)"
      using fadd_whole [OF \<open>\<bar>b - k + k\<bar> \<le> 2 ^ 53\<close>]
      by (simp add: balance_step_def assms(2) fsub_whole [OF \<open>\<bar>b - k\<bar> \<le> 2 ^ 53\<close>]
          del: of_int_diff)
    moreover have "contribution a tx = 0"
      using 1 by (simp add: contribution_def)
    ultimately show ?thesis
      by (intro exI [of _ b]) simp
  next
    case 2
    then have "balance_step a (Fin (of_int b)) tx = Fin (of_int (b - k))"
      by (simp add: balance_step_def assms(2) fsub_whole [OF \<open>\<bar>b - k\<bar> \<le> 2 ^ 53\<close>]
          del: of_int_diff)
    moreover have "contribution a tx = - of_int k"
      using 2 by (simp add: contribution_def val_def assms(2))
    ultimately show ?thesis
      by (intro exI [of _ "b - k"]) simp
  next
    case 3
    then have "balance_step a (Fin (of_int b)) tx = Fin (of_int (b + k))"
      by (simp add: balance_step_def assms(2) fadd_whole [OF \<open>\<bar>b + k\<bar> \<le> 2 ^ 53\<close>]
          del: of_int_add)
    moreover have "contribution a tx = of_int k"
      using 3 by (simp add: contribution_def val_def assms(2))
    ultimately show ?thesis
      by (intro exI [of _ "b + k"]) simp
  next
    case 4
    then have "balance_step a (Fin (of_int b)) tx = Fin (of_int b)"
      by (simp add: balance_step_def)
    moreover have "contribution a tx = 0"
      using 4 by (simp add: contribution_def)
    ultimately show ?thesis
      by (intro exI [of _ b]) simp
  qed
qed

lemma foldl_balance_step_whole:
  assumes "list_all (\<lambda>tx. is_whole (amount tx)) txs"
    and "of_int \<bar>b\<bar> + sum_list (map (\<lambda>tx. \<bar>val (amount tx)\<bar>) txs) \<le> 2 ^ 53"
  shows "foldl (balance_step a) (Fin (of_int b)) txs
           = Fin (of_int b + sum_list (map (contribution a) txs))"
  using assms
proof (induction txs arbitrary: b)
  case Nil
  then show ?case by simp
next
  case (Cons tx txs)
  from Cons.prems(1) obtain k where k: "amount tx = Fin (of_int k)"
    using is_whole_cases by auto
  have nn: "0 \<le> sum_list (map (\<lambda>tx. \<bar>val (amount tx)\<bar>) txs)"
    by (rule sum_list_nonneg) auto
  have "(of_int (\<bar>b\<bar> + \<bar>k\<bar>) :: rat) \<le> of_int (2 ^ 53)"
    using Cons.prems(2) nn by (simp add: k val_def)
  then have bk: "\<bar>b\<bar> + \<bar>k\<bar> \<le> 2 ^ 53"
    by (simp only: of_int_le_iff)
  from balance_step_whole [OF bk k, of a] obtain b' where
    b': "balance_step a (Fin (of_int b)) tx = Fin (of_int b')"
      "of_int b' = of_int b + contribution a tx" "\<bar>b'\<bar> \<le> \<bar>b\<bar> + \<bar>k\<bar>"
    by blast
  have "(of_int \<bar>b'\<bar> :: rat) \<le> of_int (\<bar>b\<bar> + \<bar>k\<bar>)"
    using b'(3) by (simp only: of_int_le_iff)
  then have "of_int \<bar>b'\<bar> + sum_list (map (\<lambda>tx. \<bar>val (amount tx)\<bar>) txs) \<le> (2::rat) ^ 53"
    using Cons.prems(2) by (simp add: k val_def)
  from Cons.IH [OF _ this] Cons.prems(1) show ?case
    by (simp add: b' add.assoc)
qed

lemma get_balance_whole:
  assumes "whole_amounts (concat (map transactions (chain_blocks s)))"
  shows "get_balance s a
           = Fin (sum_list (map (contribution a) (concat (map transactions (chain_blocks s)))))"
  using foldl_balance_step_whole [of "concat (map transactions (chain_blocks s))" 0 a] assms
  by (simp add: get_balance_foldl whole_amounts_def)

lemma sum_contribution:
  "finite A \<Longrightarrow> from_address tx \<in> A \<Longrightarrow> to_address tx \<in> A \<Longrightarrow>
   (\<Sum>a \<in> A. contribution a tx) = 0"
  by (simp add: contribution_def sum_subtractf sum.delta)

lemma sum_sum_list_contribution:
  "finite A \<Longrightarrow> \<forall>tx \<in> set txs. from_address tx \<in> A \<and> to_address tx \<in> A \<Longrightarrow>
   (\<Sum>a \<in> A. sum_list (map (contribution a) txs)) = 0"
  by (induction txs) (auto simp: sum.distrib sum_contribution)

lemma rounding_ledger:
  "\<exists>g b. build ''2024-01-01T10:00:00'' rounding_calls
           = Inr \<lparr> chain_blocks = [g, b], pending_transactions = [] \<rparr>
        \<and> transactions g = []
        \<and> transactions b = [tx_a_b, tx_c_b]"
  by (simp add: build_def rounding_calls_def AstroBlockchain_init_def create_genesis_block_def
      Block_init_eq create_block_def get_latest_block_def get_last_def add_transaction_def Let_def)

lemma rounding_balances:
  "fsub (Fin 0) (Fin 10000000000000000) = Fin (- 10000000000000000)"
  "fadd (fadd (Fin 0) (Fin 10000000000000000)) (Fin 1) = Fin 10000000000000000"
  "fsub (Fin 0) (Fin 1) = Fin (- 1)"
  by code_simp+

subsection \<open>The claims about the ledger\<close>

text \<open>
  Claim C1, amended. For every chain built by the constructor and any sequence of
  \<open>add_transaction\<close> and \<open>create_block\<close> calls, \<open>is_chain_valid\<close> returns true. It returns
  false exactly when some block after the genesis block has a stored hash that differs
  from the hash recomputed from its index, timestamp, previous hash, Merkle root,
  fingerprint and nonce, or a previous hash that differs from the stored hash of the block
  before it. Replacing the transactions of a stored block does not change the result.
\<close>

theorem C1_is_chain_valid:
  "(\<exists>s. build now cs = Inr s \<and> is_chain_valid s)
   \<and> (is_chain_valid s \<longleftrightarrow>
        (\<forall>i. 1 \<le> i \<and> i < length (chain_blocks s) \<longrightarrow>
           hash (chain_blocks s ! i) = calculate_hash (chain_blocks s ! i)
           \<and> previous_hash (chain_blocks s ! i) = hash (chain_blocks s ! (i - 1))))
   \<and> is_chain_valid (tamper_transactions s i txs) = is_chain_valid s"
proof -
  have "\<exists>s. build now cs = Inr s \<and> is_chain_valid s"
    using build_valid by blast
  then show ?thesis
    using is_chain_valid_iff [of s] tamper_transactions_valid [of s i txs] by blast
qed

text \<open>The scenario's ledger and the genesis-only ledger.\<close>

theorem C1_witness:
  "(\<exists>s. build ''2024-01-01T10:00:00'' scenario_calls = Inr s \<and> is_chain_valid s)
   \<and> is_chain_valid demo_ledger
   \<and> is_chain_valid (tamper_transactions demo_ledger 0 [tx_alice_bob]) = is_chain_valid demo_ledger"
proof -
  have "\<forall>i. 1 \<le> i \<and> i < length (chain_blocks demo_ledger) \<longrightarrow>
           hash (chain_blocks demo_ledger ! i) = calculate_hash (chain_blocks demo_ledger ! i)
           \<and> previous_hash (chain_blocks demo_ledger ! i) = hash (chain_blocks demo_ledger ! (i - 1))"
    by (simp add: demo_ledger_def)
  then show ?thesis
    using C1_is_chain_valid [of "''2024-01-01T10:00:00''" scenario_calls demo_ledger 0 "[tx_alice_bob]"]
    by blast
qed

text \<open>
  Claim C1 as stated fails: in the ledger of the scenario, the amount of the first
  transaction of block 1 is changed from 100 to 999 with no hash recomputed, and
  \<open>is_chain_valid\<close> still returns true.
\<close>

theorem C1_counterexample:
  "\<exists>s. build ''2024-01-01T10:00:00'' scenario_calls = Inr s
     \<and> amount (transactions (chain_blocks s ! 1) ! 0) = Fin 100
     \<and> amount (transactions (chain_blocks (tamper_amount s 1 0 (Fin 999)) ! 1) ! 0) = Fin 999
     \<and> is_chain_valid (tamper_amount s 1 0 (Fin 999))"
proof -
  obtain g b where gb: "build ''2024-01-01T10:00:00'' scenario_calls
           = Inr \<lparr> chain_blocks = [g, b], pending_transactions = [] \<rparr>"
    "transactions b = [tx_alice_bob, tx_bob_charlie, tx_charlie_alice]"
    using scenario_ledger by blast
  let ?s = "\<lparr> chain_blocks = [g, b], pending_transactions = [] \<rparr>"
  have "is_chain_valid ?s"
    using build_valid [of "''2024-01-01T10:00:00''" scenario_calls] gb(1) by auto
  then have "is_chain_valid (tamper_amount ?s 1 0 (Fin 999))"
    by (simp add: tamper_amount_def tamper_transactions_valid)
  moreover have "amount (transactions (chain_blocks ?s ! 1) ! 0) = Fin 100"
    by (simp add: gb(2) tx_alice_bob_def)
  moreover have "amount (transactions (chain_blocks (tamper_amount ?s 1 0 (Fin 999)) ! 1) ! 0) = Fin 999"
    by (simp add: gb(2) tamper_amount_def tamper_transactions_def)
  ultimately show ?thesis
    using gb(1) by blast
qed

text \<open>
  Claim C2. For every transaction list, \<open>calculate_merkle_root\<close> returns (and does not
  raise) the hash of the empty string when the list is empty, the transaction's own hash
  when the list has one element, and in every case the root the specification describes:
  the ordered transaction hashes folded pairwise, the last hash duplicated whenever the
  count is odd, until one hash remains.
\<close>

theorem C2_merkle_root:
  "calculate_merkle_root [] = Inr (sha256 [])
   \<and> calculate_merkle_root [tx] = Inr (tx_hash tx)
   \<and> calculate_merkle_root txs = Inr (spec_merkle_root (map tx_hash txs))"
  by (simp add: calculate_merkle_root_spec spec_merkle_root_def fold_pairs.simps [of "[tx_hash tx]"])

text \<open>Three transactions: the third hash is paired with itself.\<close>

theorem C2_witness:
  "calculate_merkle_root [tx_alice_bob, tx_bob_charlie, tx_charlie_alice]
     = Inr (sha256 (sha256 (tx_hash tx_alice_bob @ tx_hash tx_bob_charlie)
                    @ sha256 (tx_hash tx_charlie_alice @ tx_hash tx_charlie_alice)))"
proof -
  let ?a = "tx_hash tx_alice_bob" and ?b = "tx_hash tx_bob_charlie" and ?c = "tx_hash tx_charlie_alice"
  have "fold_pairs [?a, ?b, ?c] = fold_pairs [sha256 (?a @ ?b), sha256 (?c @ ?c)]"
    by (simp add: fold_pairs.simps [of "[?a, ?b, ?c]"])
  also have "\<dots> = fold_pairs [sha256 (sha256 (?a @ ?b) @ sha256 (?c @ ?c))]"
    by (simp add: fold_pairs.simps [of "[sha256 (?a @ ?b), sha256 (?c @ ?c)]"])
  also have "\<dots> = [sha256 (sha256 (?a @ ?b) @ sha256 (?c @ ?c))]"
    by (simp add: fold_pairs.simps [of "[sha256 (sha256 (?a @ ?b) @ sha256 (?c @ ?c))]"])
  finally show ?thesis
    using C2_merkle_root [of undefined "[tx_alice_bob, tx_bob_charlie, tx_charlie_alice]"]
    by (simp add: spec_merkle_root_def)
qed

text \<open>
  Claim C3. For every ledger (its chain holds at least the genesis block) and every
  snapshot, \<open>create_block\<close> returns a block whose index is the chain length before the
  call and whose \<open>previous_hash\<close> is the hash of the block that was last; the block holds
  exactly the pending transactions, in order; the pool is left empty and the block is
  appended to the chain.
\<close>

theorem C3_create_block:
  assumes "chain_blocks s \<noteq> []"
  shows "\<exists>b s'. create_block s snap now = Inr (b, s')
           \<and> index b = int (length (chain_blocks s))
           \<and> previous_hash b = hash (last (chain_blocks s))
           \<and> transactions b = pending_transactions s
           \<and> pending_transactions s' = []
           \<and> chain_blocks s' = chain_blocks s @ [b]"
proof -
  obtain b where "create_block s snap now
        = Inr (b, \<lparr> chain_blocks = chain_blocks s @ [b], pending_transactions = [] \<rparr>)"
      "index b = int (length (chain_blocks s))"
      "previous_hash b = hash (last (chain_blocks s))"
      "transactions b = pending_transactions s"
    using create_block_ok [OF assms] by blast
  then show ?thesis by simp
qed

text \<open>The ledger after the constructor and one \<open>add_transaction\<close>.\<close>

theorem C3_witness:
  "chain_blocks (add_transaction demo_ledger tx_alice_bob) \<noteq> []
   \<and> (\<exists>b s'. create_block (add_transaction demo_ledger tx_alice_bob)
               (time_snapshot ''2024-01-01T10:07:30'') ''2024-01-01T10:08:00'' = Inr (b, s')
          \<and> index b = 1 \<and> previous_hash b = hash demo_genesis
          \<and> transactions b = [tx_alice_bob] \<and> pending_transactions s' = []
          \<and> chain_blocks s' = [demo_genesis, b])"
  using C3_create_block [of "add_transaction demo_ledger tx_alice_bob"
      "time_snapshot ''2024-01-01T10:07:30''" "''2024-01-01T10:08:00''"]
  by (simp add: add_transaction_def demo_ledger_def)


text \<open>
  Claim C4, amended. For every ledger whose blocks' transactions only mention addresses
  of a finite set \<open>A\<close> as sender or receiver, and whose amounts are whole numbers with
  absolute values that sum to at most \<open>2 ** 53\<close>, every balance is finite and the balances
  of the addresses of \<open>A\<close> sum to zero.
\<close>

theorem C4_conservation:
  assumes "finite A"
    and "\<forall>b \<in> set (chain_blocks s). \<forall>tx \<in> set (transactions b).
           from_address tx \<in> A \<and> to_address tx \<in> A"
    and "whole_amounts (concat (map transactions (chain_blocks s)))"
  shows "(\<forall>a. is_finite (get_balance s a)) \<and> (\<Sum>a \<in> A. val (get_balance s a)) = 0"
proof -
  have "\<forall>tx \<in> set (concat (map transactions (chain_blocks s))).
          from_address tx \<in> A \<and> to_address tx \<in> A"
    using assms(2) by auto
  then show ?thesis
    using assms(1)
    by (simp add: get_balance_whole [OF assms(3)] is_finite_def val_def
        sum_sum_list_contribution)
qed

text \<open>
  The specification's scenario: Alice to Bob 100, Bob to Charlie 50, Charlie to Alice 25,
  in one block.
\<close>

theorem C4_witness:
  "\<exists>s. build ''2024-01-01T10:00:00'' scenario_calls = Inr s
     \<and> whole_amounts (concat (map transactions (chain_blocks s)))
     \<and> (\<Sum>a \<in> {''alice'', ''bob'', ''charlie''}. val (get_balance s a)) = 0
     \<and> get_balance s ''alice'' = Fin (- 75) \<and> get_balance s ''bob'' = Fin 50
     \<and> get_balance s ''charlie'' = Fin 25"
proof -
  obtain g b where gb: "build ''2024-01-01T10:00:00'' scenario_calls
           = Inr \<lparr> chain_blocks = [g, b], pending_transactions = [] \<rparr>"
    "transactions g = []"
    "transactions b = [tx_alice_bob, tx_bob_charlie, tx_charlie_alice]"
    using scenario_ledger by blast
  let ?s = "\<lparr> chain_blocks = [g, b], pending_transactions = [] \<rparr>"
  have w: "whole_amounts (concat (map transactions (chain_blocks ?s)))"
    by (simp add: gb whole_amounts_def is_whole_def val_def
        tx_alice_bob_def tx_bob_charlie_def tx_charlie_alice_def)
  have "(\<Sum>a \<in> {''alice'', ''bob'', ''charlie''}. val (get_balance ?s a)) = 0"
    using C4_conservation [of "{''alice'', ''bob'', ''charlie''}" ?s] w
    by (simp add: gb tx_alice_bob_def tx_bob_charlie_def tx_charlie_alice_def)
  moreover have "get_balance ?s ''alice'' = Fin (- 75)" "get_balance ?s ''bob'' = Fin 50"
    "get_balance ?s ''charlie'' = Fin 25"
    by (simp_all add: get_balance_whole [OF w] gb contribution_def val_def
        tx_alice_bob_def tx_bob_charlie_def tx_charlie_alice_def)
  ultimately show ?thesis
    using gb(1) w by blast
qed

text \<open>
  Claim C4 as stated fails: every balance is accumulated in float arithmetic, and a
  rounded sum loses what conservation needs. In the ledger whose block holds a transfer
  of \<open>1e16\<close> from a to b and a transfer of \<open>1.0\<close> from c to b, the balance of b is \<open>1e16\<close>
  (\<open>1e16 + 1.0\<close> is rounded to \<open>1e16\<close>), and the three balances sum to \<open>-1\<close>.
\<close>

theorem C4_counterexample:
  "\<exists>s. build ''2024-01-01T10:00:00'' rounding_calls = Inr s
     \<and> map (\<lambda>tx. (from_address tx, to_address tx, amount tx))
          (concat (map transactions (chain_blocks s)))
         = [(''a'', ''b'', Fin 10000000000000000), (''c'', ''b'', Fin 1)]
     \<and> get_balance s ''a'' = Fin (- 10000000000000000)
     \<and> get_balance s ''b'' = Fin 10000000000000000
     \<and> get_balance s ''c'' = Fin (- 1)
     \<and> (\<Sum>x \<in> {''a'', ''b'', ''c''}. val (get_balance s x)) = - 1"
proof -
  obtain g b where gb: "build ''2024-01-01T10:00:00'' rounding_calls
           = Inr \<lparr> chain_blocks = [g, b], pending_transactions = [] \<rparr>"
    "transactions g = []"
    "transactions b = [tx_a_b, tx_c_b]"
    using rounding_ledger by blast
  let ?s = "\<lparr> chain_blocks = [g, b], pending_transactions = [] \<rparr>"
  have bal: "get_balance ?s ''a'' = Fin (- 10000000000000000)"
    "get_balance ?s ''b'' = Fin 10000000000000000"
    "get_balance ?s ''c'' = Fin (- 1)"
    by (simp_all add: get_balance_foldl gb balance_step_def tx_a_b_def tx_c_b_def
        rounding_balances)
  have txs: "map (\<lambda>tx. (from_address tx, to_address tx, amount tx))
          (concat (map transactions (chain_blocks ?s)))
         = [(''a'', ''b'', Fin 10000000000000000), (''c'', ''b'', Fin 1)]"
    by (simp add: gb tx_a_b_def tx_c_b_def)
  have total: "(\<Sum>x \<in> {''a'', ''b'', ''c''}. val (get_balance ?s x)) = - 1"
    by (simp add: bal val_def)
  show ?thesis
    by (rule exI [of _ ?s]) (simp only: gb(1) bal txs total simp_thms)
qed

text \<open>
  Claim C10. \<open>get_balance\<close> depends only on the chain: two ledgers with the same chain give
  every address the same balance, \<open>add_transaction\<close> changes no balance, and the
  \<open>create_block\<close> that follows continues the accumulation of each balance with the pending
  transactions.
\<close>

theorem C10_pending:
  "(chain_blocks s = chain_blocks s' \<longrightarrow> get_balance s a = get_balance s' a)
   \<and> get_balance (add_transaction s tx) a = get_balance s a
   \<and> (chain_blocks s \<noteq> [] \<longrightarrow>
        (\<exists>b s'. create_block s snap now = Inr (b, s')
           \<and> get_balance s' a
               = foldl (balance_step a) (get_balance s a) (pending_transactions s)))"
proof -
  have "\<exists>b s'. create_block s snap now = Inr (b, s')
           \<and> get_balance s' a
               = foldl (balance_step a) (get_balance s a) (pending_transactions s)"
    if ne: "chain_blocks s \<noteq> []"
  proof -
    obtain b where "create_block s snap now
        = Inr (b, \<lparr> chain_blocks = chain_blocks s @ [b], pending_transactions = [] \<rparr>)"
      "transactions b = pending_transactions s"
      using create_block_ok [OF ne] by blast
    then show ?thesis by (simp add: get_balance_foldl)
  qed
  then show ?thesis
    by (simp add: get_balance_def add_transaction_def)
qed

text \<open>Bob's balance is 0 while Alice's transfer is pending, and 100 once a block holds it.\<close>

theorem C10_witness:
  "get_balance (add_transaction demo_ledger tx_alice_bob) ''bob'' = Fin 0
   \<and> (\<exists>b s'. create_block (add_transaction demo_ledger tx_alice_bob)
               (time_snapshot ''2024-01-01T10:07:30'') ''2024-01-01T10:08:00'' = Inr (b, s')
          \<and> get_balance s' ''bob'' = Fin 100)"
proof -
  have 0: "get_balance demo_ledger ''bob'' = Fin 0"
    by (simp add: get_balance_def demo_ledger_def demo_genesis_def)
  have ne: "chain_blocks (add_transaction demo_ledger tx_alice_bob) \<noteq> []"
    by (simp add: add_transaction_def demo_ledger_def)
  have c: "foldl (balance_step ''bob'') (Fin 0)
             (pending_transactions (add_transaction demo_ledger tx_alice_bob)) = Fin 100"
    using fadd_whole [of 0 100]
    by (simp add: add_transaction_def demo_ledger_def balance_step_def tx_alice_bob_def)
  show ?thesis
    using C10_pending [of demo_ledger demo_ledger "''bob''" tx_alice_bob
        "time_snapshot ''2024-01-01T10:07:30''" "''2024-01-01T10:08:00''"]
      C10_pending [of "add_transaction demo_ledger tx_alice_bob" demo_ledger "''bob''"
        tx_alice_bob "time_snapshot ''2024-01-01T10:07:30''" "''2024-01-01T10:08:00''"] 0 ne c
    by auto
qed

section \<open>Properties of consensus/proof\_of\_astronomy.py\<close>

subsection \<open>Fingerprints and digests of concrete inputs\<close>

text \<open>
  The consensus strings of the inputs used below, and their SHA-256 digests as
  \<open>hashlib\<close> prints them.
\<close>

lemma components_iss_a:
  "consensus_components fromisoformat_basic (iss_snapshot (fl (4 / 1000)) (Fin 0))
     = Inr [''iss_0.0_0.0'']"
  by code_simp

lemma components_iss_b:
  "consensus_components fromisoformat_basic (iss_snapshot (fl (6 / 1000)) (Fin 0))
     = Inr [''iss_0.01_0.0'']"
  by code_simp

lemma components_iss_c:
  "consensus_components fromisoformat_basic (iss_snapshot (fl (2 / 1000)) (Fin 0))
     = Inr [''iss_0.0_0.0'']"
  by code_simp

lemma components_iss_d:
  "consensus_components fromisoformat_basic (iss_snapshot (fl (- 2 / 1000)) (Fin 0))
     = Inr [''iss_-0.0_0.0'']"
  by code_simp

lemma components_solar_a:
  "consensus_components fromisoformat_basic (solar_snapshot (fl (4 / 100000)))
     = Inr [''solar_0.0'']"
  by code_simp

lemma components_solar_b:
  "consensus_components fromisoformat_basic (solar_snapshot (fl (6 / 100000)))
     = Inr [''solar_0.0001'']"
  by code_simp

lemma components_garbage:
  "consensus_components fromisoformat_basic (time_snapshot ''garbage'') = Inr [''time_garbage'']"
  by code_simp

lemma components_demo:
  "consensus_components fromisoformat_basic demo_snapshot
     = Inr [''iss_36.39_173.77'', ''solar_0.1826'', ''time_2024-01-01T10:00:00'']"
  by code_simp

lemma fingerprint_iss_a:
  "calculate_astronomical_consensus fromisoformat_basic (iss_snapshot (fl (4 / 1000)) (Fin 0))
     = Inr ''db28cabe27e00b43812d986c8a60d203e66eb06e468e3c7d96bfad960f7d0c5d''"
  by code_simp

lemma fingerprint_iss_b:
  "calculate_astronomical_consensus fromisoformat_basic (iss_snapshot (fl (6 / 1000)) (Fin 0))
     = Inr ''e020c1c1e4f976c107839d0ce76caab9c00c803a478b0e64ba87edbf25337c72''"
  by code_simp

lemma fingerprint_iss_c:
  "calculate_astronomical_consensus fromisoformat_basic (iss_snapshot (fl (2 / 1000)) (Fin 0))
     = Inr ''db28cabe27e00b43812d986c8a60d203e66eb06e468e3c7d96bfad960f7d0c5d''"
  by code_simp

lemma fingerprint_iss_d:
  "calculate_astronomical_consensus fromisoformat_basic (iss_snapshot (fl (- 2 / 1000)) (Fin 0))
     = Inr ''2e8a6e89e7f7982f16a5c7afdb506c4e2702d65fb5b509b4901dbda8de9010ed''"
  by code_simp

lemma fingerprint_solar_a:
  "calculate_astronomical_consensus fromisoformat_basic (solar_snapshot (fl (4 / 100000)))
     = Inr ''d02f239ce21ac50c099db97c245ec5b5c1608ce3570110790fbf67dc445904f6''"
  by code_simp

lemma fingerprint_solar_b:
  "calculate_astronomical_consensus fromisoformat_basic (solar_snapshot (fl (6 / 100000)))
     = Inr ''6f74d44adc0e83adc8bc04e641d7303f49155d7ce72ce3cce6d4953ccf0cf3d8''"
  by code_simp

lemma fingerprint_garbage:
  "calculate_astronomical_consensus fromisoformat_basic (time_snapshot ''garbage'')
     = Inr ''a04d9938c7d9aeff7a459c993e6f817ca0ed077ee7119c609d147a382cf446f5''"
  by code_simp

lemma fingerprint_no_time:
  "calculate_astronomical_consensus fromisoformat_basic
     ((time_snapshot ''garbage'')\<lparr> snap_timestamp := None \<rparr>)
     = Inr ''e3b0c44298fc1c149afbf4c8996fb92427ae41e4649b934ca495991b7852b855''"
  by code_simp

lemma fingerprint_genesis:
  "calculate_astronomical_consensus fromisoformat_basic genesis_astronomical_data
     = Inr ''e3b0c44298fc1c149afbf4c8996fb92427ae41e4649b934ca495991b7852b855''"
  by code_simp

lemma fingerprint_demo:
  "calculate_astronomical_consensus fromisoformat_basic demo_snapshot = Inr demo_fingerprint"
  by code_simp

lemma demo_gate_eq:
  "demo_gate = \<lparr> block_interval = 600000000, last_block_time = None,
                  difficulty_target = ''0000'', node_id = ''a153b34c3f0edbd0'' \<rparr>"
  by code_simp

lemma digest_gate:
  "sha256 (demo_fingerprint @ ''_'' @ node_id demo_gate)
     = ''4c06c69bccc3ad3947ba943accb01934499f251f1e000adceb709cedb1c014c9''"
  by code_simp

lemma admits_nonce_1: "admits (demo_gate\<lparr> difficulty_target := ''7'' \<rparr>) demo_fingerprint 1"
  by code_simp

lemma rejects_nonce_0: "\<not> admits (demo_gate\<lparr> difficulty_target := ''7'' \<rparr>) demo_fingerprint 0"
  by code_simp

lemma gate_rejects_nonce_0: "\<not> admits demo_gate demo_fingerprint 0"
  by code_simp

lemma close_lat: "\<bar>val (fl (6 / 1000)) - val (fl (4 / 1000))\<bar> < 5 / 1000"
  by code_simp

lemma close_sign: "\<bar>val (fl (- 2 / 1000)) - val (fl (2 / 1000))\<bar> < 5 / 1000"
  by code_simp

lemma close_flux: "\<bar>val (fl (6 / 100000)) - val (fl (4 / 100000))\<bar> < 5 / 100000"
  by code_simp

lemma demo_close:
  "snapshot_close fromisoformat_basic 3639 17377 1826 demo_snapshot nearby_snapshot"
  by code_simp

lemma nearby_readings:
  "sources nearby_snapshot \<noteq> sources demo_snapshot
   \<and> snap_timestamp nearby_snapshot \<noteq> snap_timestamp demo_snapshot"
  by code_simp

lemma float_str_exponent: "float_str (Fin 10000000000000000) = ''1e+16''"
  by code_simp

lemma parse_garbage_1:
  "fromisoformat_basic (replace ''+00:00'' [] (replace ''Z'' ''+00:00'' ''garbage'')) = None"
  by code_simp

lemma parse_garbage_2: "fromisoformat_basic (replace ''Z'' [] ''garbage'') = None"
  by code_simp


subsection \<open>The admission test and the nonce search\<close>

lemma startswith_iff: "startswith s p \<longleftrightarrow> (\<exists>r. s = p @ r)"
proof
  assume "startswith s p"
  then have "s = p @ drop (length p) s"
    by (metis append_take_drop_id startswith_def)
  then show "\<exists>r. s = p @ r" ..
next
  assume "\<exists>r. s = p @ r"
  then show "startswith s p" by (auto simp: startswith_def)
qed

lemma nonce_loop_None_iff:
  "nonce_loop self c ns = None \<longleftrightarrow> (\<forall>k \<in> set ns. \<not> admits self c (int k))"
  by (induction ns) (auto simp: admits_def Let_def)

lemma nonce_loop_Some_iff:
  "sorted_wrt (<) ns \<Longrightarrow>
   nonce_loop self c ns = Some n \<longleftrightarrow>
     (\<exists>m \<in> set ns. n = int m \<and> admits self c (int m)
        \<and> (\<forall>k \<in> set ns. k < m \<longrightarrow> \<not> admits self c (int k)))"
proof (induction ns)
  case Nil
  then show ?case by simp
next
  case (Cons a ns)
  show ?case
  proof (cases "admits self c (int a)")
    case True
    then have "nonce_loop self c (a # ns) = Some (int a)"
      by (simp add: admits_def)
    moreover have "(\<exists>m \<in> set (a # ns). n = int m \<and> admits self c (int m)
        \<and> (\<forall>k \<in> set (a # ns). k < m \<longrightarrow> \<not> admits self c (int k))) \<longleftrightarrow> n = int a"
      using True Cons.prems by auto
    ultimately show ?thesis by auto
  next
    case False
    then have "nonce_loop self c (a # ns) = nonce_loop self c ns"
      by (simp add: admits_def)
    moreover have "sorted_wrt (<) ns" using Cons.prems by simp
    ultimately show ?thesis
      using False Cons.IH by auto
  qed
qed

subsection \<open>The fingerprint\<close>

lemma components_ignore_hash [simp]:
  "consensus_components p (snap\<lparr> snap_astronomical_hash := h \<rparr>) = consensus_components p snap"
  by (simp add: consensus_components_def Let_def cong: sum.case_cong)

lemma consensus_ignore_hash [simp]:
  "calculate_astronomical_consensus p (snap\<lparr> snap_astronomical_hash := h \<rparr>)
     = calculate_astronomical_consensus p snap"
  by (simp add: calculate_astronomical_consensus_def)

lemma time_component_bucket:
  assumes "p (replace ''Z'' [] ts) = Some dt" "p (replace ''Z'' [] ts') = Some dt'"
    and "same_bucket dt dt'"
  shows "time_component p ts = time_component p ts'"
proof -
  have "dt\<lparr> minute := minute dt div 10 * 10, second := 0, microsecond := 0 \<rparr>
      = dt'\<lparr> minute := minute dt' div 10 * 10, second := 0, microsecond := 0 \<rparr>"
    using assms(3) by (simp add: same_bucket_def)
  then show ?thesis
    using assms(1,2) by (simp add: time_component_def Let_def)
qed

lemma reading_close_round:
  "reading_close n k r r' \<Longrightarrow>
   map_option (\<lambda>x. py_round x n) r = map_option (\<lambda>x. py_round x n) r'"
  by (auto simp: reading_close_def py_round_same_cell split: option.splits)

lemma iss_component_close:
  assumes "reading_close 2 k1 (latitude a) (latitude b)"
    and "reading_close 2 k2 (longitude a) (longitude b)"
  shows "iss_component a = iss_component b"
  using reading_close_round [OF assms(1)] reading_close_round [OF assms(2)]
  by (cases "latitude a"; cases "latitude b"; cases "longitude a"; cases "longitude b")
    (simp_all add: iss_component_def Let_def)

lemma solar_component_close:
  assumes "reading_close 4 k3 (flux a) (flux b)"
  shows "solar_component a = solar_component b"
  using reading_close_round [OF assms]
  by (cases "flux a"; cases "flux b") (simp_all add: solar_component_def Let_def)

lemma time_close_component:
  assumes "time_close p t t'"
  shows "(let ts = (case t of None \<Rightarrow> [] | Some x \<Rightarrow> x)
          in if ts \<noteq> [] then c @ [time_component p ts] else c)
       = (let ts = (case t' of None \<Rightarrow> [] | Some x \<Rightarrow> x)
          in if ts \<noteq> [] then c @ [time_component p ts] else c)"
proof (cases "t = t'")
  case True
  then show ?thesis by simp
next
  case False
  with assms obtain a b d d' where "t = Some a" "t' = Some b" "a \<noteq> []" "b \<noteq> []"
    "p (replace ''Z'' [] a) = Some d" "p (replace ''Z'' [] b) = Some d'" "same_bucket d d'"
    by (auto simp: time_close_def split: option.splits)
  then show ?thesis
    using time_component_bucket [of p a d b d'] by simp
qed

lemma components_close:
  assumes "snapshot_close p k1 k2 k3 snap snap'"
  shows "consensus_components p snap' = consensus_components p snap"
proof -
  have t: "time_close p (snap_timestamp snap) (snap_timestamp snap')"
    using assms by (simp add: snapshot_close_def)
  have s: "sources_close k1 k2 k3 (sources snap) (sources snap')"
    using assms by (simp add: snapshot_close_def)
  define srcs where "srcs = (case sources snap of
      None \<Rightarrow> \<lparr> iss = None, solar = None \<rparr> | Some s \<Rightarrow> s)"
  define srcs' where "srcs' = (case sources snap' of
      None \<Rightarrow> \<lparr> iss = None, solar = None \<rparr> | Some s \<Rightarrow> s)"
  have i: "iss_close k1 k2 (iss srcs) (iss srcs')"
    and so: "solar_close k3 (solar srcs) (solar srcs')"
    using s by (auto simp: sources_close_def srcs_def srcs'_def iss_close_def solar_close_def
        split: option.splits)
  have 1: "(case iss srcs of None \<Rightarrow> Inr []
            | Some i \<Rightarrow> (case iss_component i of Inl e \<Rightarrow> Inl e | Inr c \<Rightarrow> Inr [c]))
         = (case iss srcs' of None \<Rightarrow> Inr []
            | Some i \<Rightarrow> (case iss_component i of Inl e \<Rightarrow> Inl e | Inr c \<Rightarrow> Inr [c]))"
    using i by (auto simp: iss_close_def iss_component_close split: option.splits)
  have 2: "(case solar srcs of None \<Rightarrow> Inr c1
            | Some so \<Rightarrow> (case solar_component so of Inl e \<Rightarrow> Inl e | Inr c \<Rightarrow> Inr (c1 @ [c])))
         = (case solar srcs' of None \<Rightarrow> Inr c1
            | Some so \<Rightarrow> (case solar_component so of Inl e \<Rightarrow> Inl e | Inr c \<Rightarrow> Inr (c1 @ [c])))"
    for c1 :: "string list"
    using so by (auto simp: solar_close_def solar_component_close split: option.splits)
  show ?thesis
    unfolding consensus_components_def srcs_def [symmetric] srcs'_def [symmetric] Let_def
    using 1 2 time_close_component [OF t, unfolded Let_def]
    by (simp cong: sum.case_cong)
qed

subsection \<open>Validation and malformed timestamps\<close>

lemma components_malformed:
  assumes "ts \<noteq> []" and "snap_timestamp snap = Some ts" and "p (replace ''Z'' [] ts) = None"
  shows "consensus_components p snap =
     (case consensus_components p (snap\<lparr> snap_timestamp := None \<rparr>) of
        Inl e \<Rightarrow> Inl e | Inr cs \<Rightarrow> Inr (cs @ [''time_'' @ ts]))"
  using assms
  by (simp add: consensus_components_def time_component_def Let_def split: option.splits sum.splits)

subsection \<open>The claims about the consensus gate\<close>

text \<open>
  Claim C5. For every fingerprint and identity, \<open>can_create_block\<close> is true if and only
  if the hex digest of the fingerprint joined to the identity by \<open>_\<close> starts with the
  gate's difficulty target. The function reads the target and returns a boolean; it
  changes nothing.
\<close>

theorem C5_can_create_block:
  "can_create_block self fingerprint identity \<longleftrightarrow>
     (\<exists>rest. sha256 (fingerprint @ ''_'' @ identity) = difficulty_target self @ rest)"
  by (simp add: can_create_block_def startswith_iff)

text \<open>
  The digest for the demo gate is \<open>4c06c69b...\<close>: not admitted under the target \<open>0000\<close>,
  admitted under the target \<open>4c06\<close>.
\<close>

theorem C5_witness:
  "\<not> can_create_block demo_gate demo_fingerprint (node_id demo_gate)
   \<and> can_create_block (demo_gate\<lparr> difficulty_target := ''4c06'' \<rparr>) demo_fingerprint
         (node_id demo_gate)"
proof -
  have "\<not> can_create_block demo_gate demo_fingerprint (node_id demo_gate)"
    using C5_can_create_block [of demo_gate demo_fingerprint "node_id demo_gate"]
    unfolding digest_gate by (simp add: demo_gate_eq)
  moreover have "can_create_block (demo_gate\<lparr> difficulty_target := ''4c06'' \<rparr>)
      demo_fingerprint (node_id demo_gate)"
    using C5_can_create_block [of "demo_gate\<lparr> difficulty_target := ''4c06'' \<rparr>"
        demo_fingerprint "node_id demo_gate"]
    unfolding digest_gate by simp
  ultimately show ?thesis by simp
qed

text \<open>
  Claim C6. For every fingerprint and bound, \<open>find_valid_nonce\<close> returns the smallest
  nonce \<open>n\<close> with \<open>0 \<le> n < max_attempts\<close> that is admitted, if there is one, and
  otherwise the value \<open>None\<close>; it returns no nonce outside the bound.
\<close>

theorem C6_find_valid_nonce:
  "(find_valid_nonce self c max_attempts = Some n \<longleftrightarrow>
      0 \<le> n \<and> n < max_attempts \<and> admits self c n
      \<and> (\<forall>k. 0 \<le> k \<and> k < n \<longrightarrow> \<not> admits self c k))
   \<and> (find_valid_nonce self c max_attempts = None \<longleftrightarrow>
      (\<forall>k. 0 \<le> k \<and> k < max_attempts \<longrightarrow> \<not> admits self c k))"
proof
  have "find_valid_nonce self c max_attempts = Some n \<longleftrightarrow>
      (\<exists>m \<in> set [0..<nat max_attempts]. n = int m \<and> admits self c (int m)
        \<and> (\<forall>k \<in> set [0..<nat max_attempts]. k < m \<longrightarrow> \<not> admits self c (int k)))"
    unfolding find_valid_nonce_def by (rule nonce_loop_Some_iff) simp
  also have "\<dots> \<longleftrightarrow> 0 \<le> n \<and> n < max_attempts \<and> admits self c n
      \<and> (\<forall>k. 0 \<le> k \<and> k < n \<longrightarrow> \<not> admits self c k)"
  proof
    assume "\<exists>m \<in> set [0..<nat max_attempts]. n = int m \<and> admits self c (int m)
        \<and> (\<forall>k \<in> set [0..<nat max_attempts]. k < m \<longrightarrow> \<not> admits self c (int k))"
    then obtain m where m: "m < nat max_attempts" "n = int m" "admits self c (int m)"
      "\<forall>k. k < nat max_attempts \<and> k < m \<longrightarrow> \<not> admits self c (int k)"
      by auto
    have "\<not> admits self c k" if "0 \<le> k" "k < n" for k
    proof -
      have "nat k < m" "nat k < nat max_attempts" using that m(1,2) by auto
      with m(4) have "\<not> admits self c (int (nat k))" by blast
      with that(1) show ?thesis by simp
    qed
    with m show "0 \<le> n \<and> n < max_attempts \<and> admits self c n
      \<and> (\<forall>k. 0 \<le> k \<and> k < n \<longrightarrow> \<not> admits self c k)"
      by auto
  next
    assume r: "0 \<le> n \<and> n < max_attempts \<and> admits self c n
      \<and> (\<forall>k. 0 \<le> k \<and> k < n \<longrightarrow> \<not> admits self c k)"
    then have "nat n \<in> set [0..<nat max_attempts]" "n = int (nat n)"
      "admits self c (int (nat n))"
      "\<forall>k \<in> set [0..<nat max_attempts]. k < nat n \<longrightarrow> \<not> admits self c (int k)"
      by auto
    then show "\<exists>m \<in> set [0..<nat max_attempts]. n = int m \<and> admits self c (int m)
        \<and> (\<forall>k \<in> set [0..<nat max_attempts]. k < m \<longrightarrow> \<not> admits self c (int k))"
      by blast
  qed
  finally show "find_valid_nonce self c max_attempts = Some n \<longleftrightarrow>
      0 \<le> n \<and> n < max_attempts \<and> admits self c n
      \<and> (\<forall>k. 0 \<le> k \<and> k < n \<longrightarrow> \<not> admits self c k)" .
next
  have "find_valid_nonce self c max_attempts = None \<longleftrightarrow>
      (\<forall>k \<in> set [0..<nat max_attempts]. \<not> admits self c (int k))"
    by (simp add: find_valid_nonce_def nonce_loop_None_iff)
  also have "\<dots> \<longleftrightarrow> (\<forall>k. 0 \<le> k \<and> k < max_attempts \<longrightarrow> \<not> admits self c k)"
  proof
    assume a: "\<forall>k \<in> set [0..<nat max_attempts]. \<not> admits self c (int k)"
    show "\<forall>k. 0 \<le> k \<and> k < max_attempts \<longrightarrow> \<not> admits self c k"
    proof (intro allI impI)
      fix k :: int assume k: "0 \<le> k \<and> k < max_attempts"
      then have "nat k \<in> set [0..<nat max_attempts]" by auto
      with a have "\<not> admits self c (int (nat k))" by blast
      with k show "\<not> admits self c k" by simp
    qed
  next
    assume "\<forall>k. 0 \<le> k \<and> k < max_attempts \<longrightarrow> \<not> admits self c k"
    then show "\<forall>k \<in> set [0..<nat max_attempts]. \<not> admits self c (int k)"
      by auto
  qed
  finally show "find_valid_nonce self c max_attempts = None \<longleftrightarrow>
      (\<forall>k. 0 \<le> k \<and> k < max_attempts \<longrightarrow> \<not> admits self c k)" .
qed

text \<open>
  The digests for the nonces 0 and 1 are \<open>036df1ef...\<close> and \<open>74160646...\<close>: under the
  target \<open>7\<close> the search returns 1; under the target \<open>0000\<close> a search of one attempt,
  and one of none, return \<open>None\<close>.
\<close>

theorem C6_witness:
  "find_valid_nonce (demo_gate\<lparr> difficulty_target := ''7'' \<rparr>) demo_fingerprint 3 = Some 1
   \<and> find_valid_nonce demo_gate demo_fingerprint 1 = None
   \<and> find_valid_nonce demo_gate demo_fingerprint 0 = None"
proof -
  let ?g = "demo_gate\<lparr> difficulty_target := ''7'' \<rparr>"
  note a1 = admits_nonce_1 and a0 = rejects_nonce_0 and b0 = gate_rejects_nonce_0
  have n7: "\<forall>k. 0 \<le> k \<and> k < 1 \<longrightarrow> \<not> admits ?g demo_fingerprint k"
  proof (intro allI impI)
    fix k :: int
    assume "0 \<le> k \<and> k < 1"
    then have "k = 0" by simp
    with a0 show "\<not> admits ?g demo_fingerprint k" by simp
  qed
  have n0: "\<forall>k. 0 \<le> k \<and> k < 1 \<longrightarrow> \<not> admits demo_gate demo_fingerprint k"
  proof (intro allI impI)
    fix k :: int
    assume "0 \<le> k \<and> k < 1"
    then have "k = 0" by simp
    with b0 show "\<not> admits demo_gate demo_fingerprint k" by simp
  qed
  have "find_valid_nonce ?g demo_fingerprint 3 = Some 1"
    using C6_find_valid_nonce [of ?g demo_fingerprint 3 1] a1 n7 by simp
  moreover have "find_valid_nonce demo_gate demo_fingerprint 1 = None"
    using C6_find_valid_nonce [of demo_gate demo_fingerprint 1 0] n0 by simp
  moreover have "find_valid_nonce demo_gate demo_fingerprint 0 = None"
    using C6_find_valid_nonce [of demo_gate demo_fingerprint 0 0] by auto
  ultimately show ?thesis by simp
qed

text \<open>
  Claim C7, amended. \<open>validate_astronomical_block\<close> returns false, and does not raise,
  when the snapshot is absent, when the recomputation raises, and when the recomputed
  fingerprint differs from the \<open>astronomical_hash\<close> entry stored inside the snapshot (the
  empty string when the entry is absent); otherwise it returns true. The block's own
  \<open>astronomical_hash\<close> field is not read: editing it does not change the result.
\<close>

theorem C7_validate:
  "(bd_astronomical_data bd = None \<longrightarrow> \<not> validate_astronomical_block p bd)
   \<and> (bd_astronomical_data bd = Some snap \<longrightarrow>
        (validate_astronomical_block p bd \<longleftrightarrow>
           calculate_astronomical_consensus p snap
             = Inr (case snap_astronomical_hash snap of None \<Rightarrow> [] | Some h \<Rightarrow> h)))
   \<and> validate_astronomical_block p (bd\<lparr> bd_astronomical_hash := h' \<rparr>)
       = validate_astronomical_block p bd"
  by (auto simp: validate_astronomical_block_def Let_def split: option.splits sum.splits)

text \<open>
  A serialized block without snapshot; the genesis block, whose snapshot claims the all-zero
  fingerprint; and a block whose snapshot carries its own fingerprint.
\<close>

theorem C7_witness:
  "\<not> validate_astronomical_block fromisoformat_basic
        ((to_dict demo_genesis)\<lparr> bd_astronomical_data := None \<rparr>)
   \<and> \<not> validate_astronomical_block fromisoformat_basic (to_dict demo_genesis)
   \<and> validate_astronomical_block fromisoformat_basic
        ((to_dict demo_genesis)\<lparr> bd_astronomical_data :=
           Some (demo_snapshot\<lparr> snap_astronomical_hash := Some demo_fingerprint \<rparr>) \<rparr>)"
proof -
  let ?p = fromisoformat_basic
  let ?snap = "demo_snapshot\<lparr> snap_astronomical_hash := Some demo_fingerprint \<rparr>"
  have 1: "\<not> validate_astronomical_block ?p ((to_dict demo_genesis)\<lparr> bd_astronomical_data := None \<rparr>)"
    using C7_validate [of "(to_dict demo_genesis)\<lparr> bd_astronomical_data := None \<rparr>" ?p]
    by simp
  have g: "bd_astronomical_data (to_dict demo_genesis) = Some genesis_astronomical_data"
    by (simp add: to_dict_def demo_genesis_def)
  have 2: "\<not> validate_astronomical_block ?p (to_dict demo_genesis)"
    using C7_validate [of "to_dict demo_genesis" ?p genesis_astronomical_data] g
    unfolding fingerprint_genesis by (simp add: genesis_astronomical_data_def)
  have 3: "validate_astronomical_block ?p
             ((to_dict demo_genesis)\<lparr> bd_astronomical_data := Some ?snap \<rparr>)"
    using C7_validate [of "(to_dict demo_genesis)\<lparr> bd_astronomical_data := Some ?snap \<rparr>" ?p ?snap]
    by (simp add: fingerprint_demo)
  from 1 2 3 show ?thesis by simp
qed

text \<open>
  Claim C7 as stated fails: the block is created from a snapshot that carries its
  fingerprint, then the block's stored \<open>astronomical_hash\<close> is edited and the snapshot left
  unchanged; the edited block is still reported valid.
\<close>

theorem C7_counterexample:
  "\<exists>snap b.
     stamp fromisoformat_basic demo_snapshot = Inr snap
     \<and> Block_init 1 [] (hash demo_genesis) snap ''2024-01-01T10:08:00'' = Inr b
     \<and> astronomical_hash b = demo_fingerprint
     \<and> validate_astronomical_block fromisoformat_basic (to_dict b)
     \<and> astronomical_data (b\<lparr> astronomical_hash := ''edited'' \<rparr>) = astronomical_data b
     \<and> astronomical_hash (b\<lparr> astronomical_hash := ''edited'' \<rparr>) \<noteq> astronomical_hash b
     \<and> validate_astronomical_block fromisoformat_basic
          (to_dict (b\<lparr> astronomical_hash := ''edited'' \<rparr>))"
proof -
  let ?snap = "demo_snapshot\<lparr> snap_astronomical_hash := Some demo_fingerprint \<rparr>"
  have s: "stamp fromisoformat_basic demo_snapshot = Inr ?snap"
    by (simp add: stamp_def fingerprint_demo)
  obtain b where b: "Block_init 1 [] (hash demo_genesis) ?snap ''2024-01-01T10:08:00'' = Inr b"
    "astronomical_data b = ?snap"
    "astronomical_hash b = (case snap_astronomical_hash ?snap of None \<Rightarrow> [] | Some h \<Rightarrow> h)"
    using Block_init_ok by blast
  have h: "astronomical_hash b = demo_fingerprint"
    using b(3) by simp
  have v: "validate_astronomical_block fromisoformat_basic (to_dict b)"
    by (simp add: validate_astronomical_block_def to_dict_def b(2) fingerprint_demo)
  have v': "validate_astronomical_block fromisoformat_basic
          (to_dict (b\<lparr> astronomical_hash := ''edited'' \<rparr>))"
    by (simp add: validate_astronomical_block_def to_dict_def b(2) fingerprint_demo)
  have ne: "astronomical_hash (b\<lparr> astronomical_hash := ''edited'' \<rparr>) \<noteq> astronomical_hash b"
    by (simp add: h demo_fingerprint_def)
  from s b(1) h v v' ne show ?thesis by auto
qed

text \<open>
  Claim C8, amended. Two snapshots with the same sources and keys have the same
  fingerprint when, key by key, the latitudes and the longitudes are equal or lie with
  the same sign strictly within 0.005 of the same multiple of 0.01, the fluxes are equal
  or lie with the same sign strictly within 0.00005 of the same multiple of 0.0001, and
  the timestamps are equal or parse to datetimes of the same 10-minute bucket.
\<close>

theorem C8_fingerprint_stable:
  assumes "snapshot_close fromisoformat k1 k2 k3 snap snap'"
  shows "calculate_astronomical_consensus fromisoformat snap'
       = calculate_astronomical_consensus fromisoformat snap"
  using components_close [OF assms] by (simp add: calculate_astronomical_consensus_def)

text \<open>
  Latitude 36.394 for 36.39, longitude 173.766 for 173.77, flux 0.18264 for 0.1826,
  10:02:59 for 10:07:30.
\<close>

theorem C8_witness:
  "snapshot_close fromisoformat_basic 3639 17377 1826 demo_snapshot nearby_snapshot
   \<and> sources nearby_snapshot \<noteq> sources demo_snapshot
   \<and> snap_timestamp nearby_snapshot \<noteq> snap_timestamp demo_snapshot
   \<and> calculate_astronomical_consensus fromisoformat_basic nearby_snapshot
       = Inr demo_fingerprint"
  using C8_fingerprint_stable [OF demo_close] demo_close nearby_readings fingerprint_demo
  by simp

text \<open>
  Claim C8 as stated fails: the latitudes 0.004 and 0.006 differ by less than 0.005 and
  round to 0.0 and 0.01; the latitudes 0.002 and -0.002 differ by less than 0.005 and
  round to 0.0 and -0.0; the fluxes 0.00004 and 0.00006 differ by less than 0.00005 and
  round to 0.0 and 0.0001. The fingerprints differ in each case.
\<close>

theorem C8_counterexample:
  "\<bar>val (fl (6 / 1000)) - val (fl (4 / 1000))\<bar> < 5 / 1000
   \<and> calculate_astronomical_consensus fromisoformat_basic (iss_snapshot (fl (6 / 1000)) (Fin 0))
       \<noteq> calculate_astronomical_consensus fromisoformat_basic (iss_snapshot (fl (4 / 1000)) (Fin 0))
   \<and> \<bar>val (fl (- 2 / 1000)) - val (fl (2 / 1000))\<bar> < 5 / 1000
   \<and> calculate_astronomical_consensus fromisoformat_basic (iss_snapshot (fl (- 2 / 1000)) (Fin 0))
       \<noteq> calculate_astronomical_consensus fromisoformat_basic (iss_snapshot (fl (2 / 1000)) (Fin 0))
   \<and> \<bar>val (fl (6 / 100000)) - val (fl (4 / 100000))\<bar> < 5 / 100000
   \<and> calculate_astronomical_consensus fromisoformat_basic (solar_snapshot (fl (6 / 100000)))
       \<noteq> calculate_astronomical_consensus fromisoformat_basic (solar_snapshot (fl (4 / 100000)))"
  unfolding fingerprint_iss_a fingerprint_iss_b fingerprint_iss_c fingerprint_iss_d
    fingerprint_solar_a fingerprint_solar_b
  using close_lat close_sign close_flux by simp

text \<open>
  Claim C9, amended. When the timestamp does not parse, \<open>is_time_for_new_block\<close> returns
  true, and \<open>calculate_astronomical_consensus\<close> does not fail on it: the time component
  is \<open>time_\<close> followed by the timestamp as it was given, after the components of the
  sources.
\<close>

theorem C9_malformed_timestamp:
  "(p (replace ''+00:00'' [] (replace ''Z'' ''+00:00'' ts)) = None \<longrightarrow>
      is_time_for_new_block p self now (Some ts))
   \<and> (ts \<noteq> [] \<and> snap_timestamp snap = Some ts \<and> p (replace ''Z'' [] ts) = None \<longrightarrow>
      calculate_astronomical_consensus p snap =
        (case consensus_components p (snap\<lparr> snap_timestamp := None \<rparr>) of
           Inl e \<Rightarrow> Inl e
         | Inr cs \<Rightarrow> Inr (sha256 (join ''_'' (cs @ [''time_'' @ ts])))))"
proof -
  have "calculate_astronomical_consensus p snap =
        (case consensus_components p (snap\<lparr> snap_timestamp := None \<rparr>) of
           Inl e \<Rightarrow> Inl e
         | Inr cs \<Rightarrow> Inr (sha256 (join ''_'' (cs @ [''time_'' @ ts]))))"
    if "ts \<noteq> []" "snap_timestamp snap = Some ts" "p (replace ''Z'' [] ts) = None"
    using components_malformed [of ts snap p] that
    by (simp add: calculate_astronomical_consensus_def split: sum.splits)
  then show ?thesis
    by (simp add: is_time_for_new_block_def)
qed

text \<open>The timestamp \<open>garbage\<close>.\<close>

theorem C9_witness:
  "is_time_for_new_block fromisoformat_basic demo_gate demo_now (Some ''garbage'')
   \<and> calculate_astronomical_consensus fromisoformat_basic (time_snapshot ''garbage'')
       = Inr (sha256 ''time_garbage'')"
proof -
  have c: "consensus_components fromisoformat_basic
        ((time_snapshot ''garbage'')\<lparr> snap_timestamp := None \<rparr>) = Inr []"
    by (simp add: consensus_components_def time_snapshot_def)
  have t: "snap_timestamp (time_snapshot ''garbage'') = Some ''garbage''"
    by (simp add: time_snapshot_def)
  show ?thesis
    using C9_malformed_timestamp [of fromisoformat_basic "''garbage''" demo_gate demo_now
        "time_snapshot ''garbage''"]
    unfolding parse_garbage_1 parse_garbage_2 c t by simp
qed

text \<open>
  Claim C9 as stated fails: the snapshot with the timestamp \<open>garbage\<close> and the same
  snapshot without a timestamp have different fingerprints, so the time component is not
  omitted.
\<close>

theorem C9_counterexample:
  "fromisoformat_basic (replace ''Z'' [] ''garbage'') = None
   \<and> calculate_astronomical_consensus fromisoformat_basic (time_snapshot ''garbage'')
       \<noteq> calculate_astronomical_consensus fromisoformat_basic
           ((time_snapshot ''garbage'')\<lparr> snap_timestamp := None \<rparr>)"
  unfolding parse_garbage_2 fingerprint_garbage fingerprint_no_time by simp


end
